theory Spec2Isabelle
  imports Main "HOL-Library.Word"
begin

section \<open>C integer arithmetic used by the buffered I/O engine\<close>

text \<open>
  File positions (\<open>loff_t\<close>, signed 64 bit) are modelled as \<open>int\<close>; the engine only
  handles positions between 0 and the file size limit, where no signed overflow occurs.
  Byte counts inside a folio (\<open>size_t\<close>, unsigned 64 bit) and block indices
  (\<open>unsigned\<close>, 32 bit) are modelled as \<open>nat\<close> with the wrap-around of every
  addition, subtraction and conversion written out.
\<close>

type_synonym loff_t = int
type_synonym size_t = nat

definition to_size_t :: "int \<Rightarrow> size_t" where
  "to_size_t x = nat (x mod 2 ^ 64)"

definition size_add :: "size_t \<Rightarrow> size_t \<Rightarrow> size_t" where
  "size_add a b = (a + b) mod 2 ^ 64"

definition size_sub :: "size_t \<Rightarrow> size_t \<Rightarrow> size_t" where
  "size_sub a b = (a + (2 ^ 64 - b mod 2 ^ 64)) mod 2 ^ 64"

definition to_uint :: "nat \<Rightarrow> nat" where
  "to_uint x = x mod 2 ^ 32"

definition uint_add :: "nat \<Rightarrow> nat \<Rightarrow> nat" where
  "uint_add a b = (a + b) mod 2 ^ 32"

definition uint_sub :: "nat \<Rightarrow> nat \<Rightarrow> nat" where
  "uint_sub a b = (a + (2 ^ 32 - b mod 2 ^ 32)) mod 2 ^ 32"

text \<open>\<open>x >> n\<close> on an unsigned value.\<close>

definition shr :: "nat \<Rightarrow> nat \<Rightarrow> nat" where
  "shr x n = x div 2 ^ n"

lemma wrap_sub:
  fixes a b M :: nat
  assumes "b \<le> a" "a < M"
  shows "(a + (M - b mod M)) mod M = a - b"
proof -
  have b: "b mod M = b" using assms by simp
  have "a + (M - b) = M + (a - b)" using assms by simp
  then have "(a + (M - b)) mod M = (M + (a - b)) mod M" by simp
  also have "\<dots> = (a - b) mod M" by (rule mod_add_self1)
  also have "\<dots> = a - b"
  proof (rule mod_less)
    show "a - b < M" using assms by arith
  qed
  finally show ?thesis by (simp only: b)
qed

lemma size_add_simple: "a + b < 2 ^ 64 \<Longrightarrow> size_add a b = a + b"
  by (simp add: size_add_def)

lemma size_sub_simple: "b \<le> a \<Longrightarrow> a < 2 ^ 64 \<Longrightarrow> size_sub a b = a - b"
  unfolding size_sub_def by (rule wrap_sub)

lemma to_uint_simple: "x < 2 ^ 32 \<Longrightarrow> to_uint x = x"
  by (simp add: to_uint_def)

lemma uint_add_simple: "a + b < 2 ^ 32 \<Longrightarrow> uint_add a b = a + b"
  by (simp add: uint_add_def)

lemma uint_sub_simple: "b \<le> a \<Longrightarrow> a < 2 ^ 32 \<Longrightarrow> uint_sub a b = a - b"
  unfolding uint_sub_def by (rule wrap_sub)

lemma div_image_interval:
  fixes k :: nat
  assumes "0 < k" "0 < len"
  shows "(\<lambda>x. x div k) ` {off ..< off + len} = {off div k .. (off + len - 1) div k}"
proof (intro equalityI subsetI)
  fix b assume "b \<in> (\<lambda>x. x div k) ` {off ..< off + len}"
  then obtain x where x: "off \<le> x" "x < off + len" "b = x div k" by auto
  then have "off div k \<le> b" "b \<le> (off + len - 1) div k"
    by (simp_all add: div_le_mono)
  then show "b \<in> {off div k .. (off + len - 1) div k}" by simp
next
  fix b assume b: "b \<in> {off div k .. (off + len - 1) div k}"
  show "b \<in> (\<lambda>x. x div k) ` {off ..< off + len}"
  proof (cases "b = off div k")
    case True
    then show ?thesis using assms by (intro image_eqI [where x = off]) simp_all
  next
    case False
    with b have lt: "off div k < b" by simp
    then have "off < b * k" using assms(1)
      by (simp add: div_less_iff_less_mult)
    moreover have "b * k \<le> off + len - 1"
      using b assms(1) by (simp add: less_eq_div_iff_mult_less_eq)
    ultimately show ?thesis using assms
      by (intro image_eqI [where x = "b * k"]) simp_all
  qed
qed

section \<open>Data model\<close>

text \<open>
  \<open>struct iomap_page\<close>: the sub-block state record. The \<open>uptodate\<close> bitmap is the
  set of the indices of its set bits; the spinlock is not modelled (every operation
  below runs atomically).
\<close>

record iomap_page =
  read_bytes_pending :: int
  write_bytes_pending :: int
  uptodate :: "nat set"

text \<open>
  \<open>struct folio\<close>, as far as the engine reads or writes it: the page index, the order
  (a folio has \<open>PAGE_SIZE << order\<close> bytes), the page flags, the private pointer
  (\<open>None\<close> when \<open>folio_has_private\<close> is false) and the cached bytes.
\<close>

record folio =
  f_index :: nat
  f_order :: nat
  f_locked :: bool
  f_uptodate :: bool
  f_error :: bool
  f_dirty :: bool
  f_writeback :: bool
  f_private :: "iomap_page option"
  f_data :: "nat \<Rightarrow> 8 word"

text \<open>\<open>struct inode\<close>: block size bits, file size, and the sticky write-back error
  of its mapping.\<close>

record inode =
  i_blkbits :: nat
  i_size :: loff_t
  i_mapping_error :: bool

text \<open>Modelled from the spec: cache pages have 4096 bytes (section 8); \<open>PAGE_SHIFT\<close>
  is declared in an architecture header.\<close>

definition PAGE_SHIFT :: nat where
  "PAGE_SHIFT = 12"

definition PAGE_SIZE :: nat where
  "PAGE_SIZE = 2 ^ PAGE_SHIFT"

text \<open>Modelled from the spec: \<open>folio_size\<close> and \<open>offset_in_folio\<close> are declared in
  headers outside the source files: a folio is a fixed-size region of
  \<open>PAGE_SIZE << order\<close> bytes, and the offset of a position in it is the position masked
  with the folio size minus one.\<close>

definition folio_size :: "folio \<Rightarrow> size_t" where
  "folio_size f = PAGE_SIZE * 2 ^ f_order f"

definition offset_in_folio :: "folio \<Rightarrow> loff_t \<Rightarrow> size_t" where
  "offset_in_folio f p = to_size_t p mod folio_size f"

text \<open>\<open>folio_offset\<close> of \<open>include/linux/pagemap.h\<close>: it is \<open>page_offset\<close> of the first
  page of the folio, \<open>((loff_t)page->index) << PAGE_SHIFT\<close>.\<close>

definition folio_offset :: "folio \<Rightarrow> loff_t" where
  "folio_offset f = int (f_index f) * int PAGE_SIZE"

definition i_blocks_per_folio :: "inode \<Rightarrow> folio \<Rightarrow> nat" where
  "i_blocks_per_folio ino f = to_uint (shr (folio_size f) (i_blkbits ino))"

definition to_iomap_page :: "folio \<Rightarrow> iomap_page option" where
  "to_iomap_page f = f_private f"

text \<open>Modelled from the spec: the bitmap primitives (a bitmap of length blocks-per-page,
  section 3) live in the kernel's bitmap library.\<close>

definition test_bit :: "nat \<Rightarrow> nat set \<Rightarrow> bool" where
  "test_bit i bm = (i \<in> bm)"

definition bitmap_set :: "nat set \<Rightarrow> nat \<Rightarrow> nat \<Rightarrow> nat set" where
  "bitmap_set bm start nbits = bm \<union> {start ..< start + nbits}"

definition bitmap_fill :: "nat set \<Rightarrow> nat \<Rightarrow> nat set" where
  "bitmap_fill bm nbits = bm \<union> {..< nbits}"

definition bitmap_full :: "nat set \<Rightarrow> nat \<Rightarrow> bool" where
  "bitmap_full bm nbits = ({..< nbits} \<subseteq> bm)"

section \<open>Sub-block state tracker\<close>

definition iomap_page_create :: "inode \<Rightarrow> folio \<Rightarrow> iomap_page option \<times> folio" where
  "iomap_page_create ino f =
     (let iop = to_iomap_page f;
          nr_blocks = i_blocks_per_folio ino f
      in if iop \<noteq> None \<or> nr_blocks \<le> 1 then (iop, f)
         else
           let new = \<lparr>read_bytes_pending = 0, write_bytes_pending = 0,
                      uptodate = (if f_uptodate f then bitmap_fill {} nr_blocks else {})\<rparr>
           in (Some new, f\<lparr>f_private := Some new\<rparr>))"

text \<open>\<open>iomap_iop_set_range_uptodate\<close> dereferences the record without a check:
  \<open>None\<close> is the NULL dereference on a folio without one.\<close>

definition iomap_iop_set_range_uptodate :: "inode \<Rightarrow> folio \<Rightarrow> size_t \<Rightarrow> size_t \<Rightarrow> folio option" where
  "iomap_iop_set_range_uptodate ino f off len =
     (case to_iomap_page f of
        None \<Rightarrow> None
      | Some iop \<Rightarrow>
          let first = to_uint (shr off (i_blkbits ino));
              last = to_uint (shr (size_sub (size_add off len) 1) (i_blkbits ino));
              iop' = iop\<lparr>uptodate := bitmap_set (uptodate iop) first
                                        (uint_add (uint_sub last first) 1)\<rparr>;
              f' = f\<lparr>f_private := Some iop'\<rparr>
          in Some (if bitmap_full (uptodate iop') (i_blocks_per_folio ino f)
                   then f'\<lparr>f_uptodate := True\<rparr> else f'))"

definition iomap_set_range_uptodate :: "inode \<Rightarrow> folio \<Rightarrow> size_t \<Rightarrow> size_t \<Rightarrow> folio" where
  "iomap_set_range_uptodate ino f off len =
     (if f_error f then f
      else if f_private f \<noteq> None then
        (case iomap_iop_set_range_uptodate ino f off len of
           Some f' \<Rightarrow> f' | None \<Rightarrow> f)
      else f\<lparr>f_uptodate := True\<rparr>)"

section \<open>Blocks touched by a byte range\<close>

text \<open>The blocks of \<open>2 ^ bits\<close> bytes that the bytes \<open>off, ..., off + len - 1\<close> of a folio
  touch.\<close>

definition blocks_of :: "nat \<Rightarrow> size_t \<Rightarrow> size_t \<Rightarrow> nat set" where
  "blocks_of bits off len = (\<lambda>x. shr x bits) ` {off ..< off + len}"

lemma blocks_of_interval:
  "0 < len \<Longrightarrow> blocks_of bits off len = {shr off bits .. shr (off + len - 1) bits}"
  unfolding blocks_of_def shr_def by (rule div_image_interval) simp_all

lemma shr_le: "shr x n \<le> x"
  by (simp add: shr_def)

lemma shr_mono: "x \<le> y \<Longrightarrow> shr x n \<le> shr y n"
  by (simp add: shr_def div_le_mono)

text \<open>The bits that \<open>iomap_iop_set_range_uptodate\<close> sets for a non-empty range below
  \<open>2 ^ 32\<close> are the blocks the range touches.\<close>

lemma first_last_blocks:
  fixes bits off len :: nat
  assumes "0 < len" "off + len < 2 ^ 32"
  defines "fst_b \<equiv> to_uint (shr off bits)"
  defines "lst_b \<equiv> to_uint (shr (size_sub (size_add off len) 1) bits)"
  shows "fst_b = shr off bits" "lst_b = shr (off + len - 1) bits" "fst_b \<le> lst_b"
    "{fst_b ..< fst_b + uint_add (uint_sub lst_b fst_b) 1} = blocks_of bits off len"
proof -
  have small: "off + len < 2 ^ 64"
    using assms(2) by (rule less_trans) simp
  have e: "size_sub (size_add off len) 1 = off + len - 1"
    using assms(1) small by (simp add: size_add_simple size_sub_simple)
  have "shr off bits \<le> off" by (rule shr_le)
  then have "shr off bits < 2 ^ 32" using assms(1,2) by linarith
  then show f: "fst_b = shr off bits" by (simp add: fst_b_def to_uint_simple)
  have "shr (off + len - 1) bits \<le> off + len - 1" by (rule shr_le)
  then have lb: "shr (off + len - 1) bits + 1 < 2 ^ 32" using assms(1,2) by linarith
  then have "shr (off + len - 1) bits < 2 ^ 32" by simp
  then show l: "lst_b = shr (off + len - 1) bits" unfolding lst_b_def e by (rule to_uint_simple)
  show fl: "fst_b \<le> lst_b" unfolding f l using assms(1) by (intro shr_mono) simp
  have "uint_sub lst_b fst_b = lst_b - fst_b"
    using fl lb l by (simp add: uint_sub_simple)
  moreover have "lst_b - fst_b + 1 < 2 ^ 32" using fl lb l by simp
  ultimately have "uint_add (uint_sub lst_b fst_b) 1 = lst_b - fst_b + 1"
    by (simp add: uint_add_simple)
  then have "{fst_b ..< fst_b + uint_add (uint_sub lst_b fst_b) 1} = {fst_b .. lst_b}"
    using fl by auto
  then show "{fst_b ..< fst_b + uint_add (uint_sub lst_b fst_b) 1} = blocks_of bits off len"
    by (simp add: blocks_of_interval [OF assms(1)] f l)
qed

text \<open>What one call does to a folio with a record, in terms of a set of blocks.\<close>

definition mark_blocks :: "inode \<Rightarrow> folio \<Rightarrow> iomap_page \<Rightarrow> nat set \<Rightarrow> folio" where
  "mark_blocks ino f iop B =
     (let iop' = iop\<lparr>uptodate := uptodate iop \<union> B\<rparr>;
          f' = f\<lparr>f_private := Some iop'\<rparr>
      in if bitmap_full (uptodate iop') (i_blocks_per_folio ino f)
         then f'\<lparr>f_uptodate := True\<rparr> else f')"

lemma iop_set_range_mark_blocks:
  assumes "f_private f = Some iop" "0 < len" "off + len < 2 ^ 32"
  shows "iomap_iop_set_range_uptodate ino f off len
           = Some (mark_blocks ino f iop (blocks_of (i_blkbits ino) off len))"
  using first_last_blocks(4) [OF assms(2,3), of "i_blkbits ino"] assms(1)
  by (simp add: iomap_iop_set_range_uptodate_def to_iomap_page_def mark_blocks_def
      bitmap_set_def Let_def)

lemma i_blocks_per_folio_mark [simp]:
  "i_blocks_per_folio ino (mark_blocks ino f iop B) = i_blocks_per_folio ino f"
  by (simp add: mark_blocks_def i_blocks_per_folio_def folio_size_def Let_def)

lemma mark_blocks_private:
  "f_private (mark_blocks ino f iop B) = Some (iop\<lparr>uptodate := uptodate iop \<union> B\<rparr>)"
  by (simp add: mark_blocks_def Let_def)

lemma bitmap_full_mono: "bitmap_full bm n \<Longrightarrow> bitmap_full (bm \<union> B) n"
  by (auto simp: bitmap_full_def)

lemma mark_blocks_twice:
  "mark_blocks ino (mark_blocks ino f iop A) (iop\<lparr>uptodate := uptodate iop \<union> A\<rparr>) B
     = mark_blocks ino f iop (A \<union> B)"
proof (cases "bitmap_full (uptodate iop \<union> A) (i_blocks_per_folio ino f)")
  case True
  then have "bitmap_full (uptodate iop \<union> A \<union> B) (i_blocks_per_folio ino f)"
    by (rule bitmap_full_mono)
  with True show ?thesis
    by (simp add: mark_blocks_def Let_def i_blocks_per_folio_def folio_size_def Un_assoc)
next
  case False
  then show ?thesis
    by (simp add: mark_blocks_def Let_def i_blocks_per_folio_def folio_size_def Un_assoc)
qed

text \<open>A sequence of calls, one after the other, on the folio the previous call left.\<close>

fun iop_set_ranges :: "inode \<Rightarrow> folio \<Rightarrow> (size_t \<times> size_t) list \<Rightarrow> folio option" where
  "iop_set_ranges ino f [] = Some f"
| "iop_set_ranges ino f ((off, len) # rs) =
     (case iomap_iop_set_range_uptodate ino f off len of
        None \<Rightarrow> None
      | Some f' \<Rightarrow> iop_set_ranges ino f' rs)"

definition bytes_of :: "(size_t \<times> size_t) list \<Rightarrow> nat set" where
  "bytes_of rs = (\<Union>(off, len) \<in> set rs. {off ..< off + len})"

definition ranges_ok :: "(size_t \<times> size_t) list \<Rightarrow> bool" where
  "ranges_ok rs = list_all (\<lambda>(off, len). 0 < len \<and> off + len < 2 ^ 32) rs"

lemma blocks_of_image: "blocks_of bits off len = (\<lambda>x. shr x bits) ` {off ..< off + len}"
  by (simp add: blocks_of_def)

lemma iop_set_ranges_mark_blocks:
  assumes "f_private f = Some iop" "ranges_ok (r # rs)"
  shows "iop_set_ranges ino f (r # rs)
           = Some (mark_blocks ino f iop ((\<lambda>x. shr x (i_blkbits ino)) ` bytes_of (r # rs)))"
  using assms
proof (induction rs arbitrary: f iop r)
  case Nil
  obtain off len where r: "r = (off, len)" by (cases r)
  with Nil show ?case
    by (simp add: ranges_ok_def iop_set_range_mark_blocks bytes_of_def blocks_of_image)
next
  case (Cons r' rs)
  obtain off len where r: "r = (off, len)" by (cases r)
  from Cons.prems r have ok: "0 < len" "off + len < 2 ^ 32" "ranges_ok (r' # rs)"
    by (simp_all add: ranges_ok_def)
  let ?A = "blocks_of (i_blkbits ino) off len"
  let ?f1 = "mark_blocks ino f iop ?A"
  have step: "iomap_iop_set_range_uptodate ino f off len = Some ?f1"
    using Cons.prems(1) ok(1,2) by (rule iop_set_range_mark_blocks)
  have "iop_set_ranges ino ?f1 (r' # rs)
          = Some (mark_blocks ino ?f1 (iop\<lparr>uptodate := uptodate iop \<union> ?A\<rparr>)
                    ((\<lambda>x. shr x (i_blkbits ino)) ` bytes_of (r' # rs)))"
    using mark_blocks_private ok(3) by (rule Cons.IH)
  also have "\<dots> = Some (mark_blocks ino f iop
                    (?A \<union> (\<lambda>x. shr x (i_blkbits ino)) ` bytes_of (r' # rs)))"
    by (simp only: mark_blocks_twice)
  also have "?A \<union> (\<lambda>x. shr x (i_blkbits ino)) ` bytes_of (r' # rs)
               = (\<lambda>x. shr x (i_blkbits ino)) ` bytes_of (r # r' # rs)"
    by (simp add: r bytes_of_def blocks_of_image image_Un)
  finally show ?case using step by (simp add: r)
qed

section \<open>Example states\<close>

text \<open>A 4096-byte folio over 1024-byte blocks, not uptodate, with an empty record.\<close>

definition ex_inode :: inode where
  "ex_inode = \<lparr>i_blkbits = 10, i_size = 4096, i_mapping_error = False\<rparr>"

definition ex_iop :: iomap_page where
  "ex_iop = \<lparr>read_bytes_pending = 0, write_bytes_pending = 0, uptodate = {}\<rparr>"

definition ex_folio :: folio where
  "ex_folio = \<lparr>f_index = 0, f_order = 0, f_locked = True, f_uptodate = False,
               f_error = False, f_dirty = False, f_writeback = False,
               f_private = Some ex_iop, f_data = (\<lambda>_. 7)\<rparr>"

section \<open>Marking a range valid on a folio flagged with an error\<close>

text \<open>
  C8. On a folio whose error flag is set, \<open>iomap_set_range_uptodate\<close> changes nothing:
  the folio it leaves behind, with its bitmap, its uptodate flag and every other field,
  is the folio it was given, for every offset and length.
\<close>

theorem set_range_uptodate_error_noop:
  "f_error f \<Longrightarrow> iomap_set_range_uptodate ino f off len = f"
  by (simp add: iomap_set_range_uptodate_def)

theorem set_range_uptodate_error_noop_witness:
  "f_error (ex_folio\<lparr>f_error := True\<rparr>) \<and>
   iomap_set_range_uptodate ex_inode (ex_folio\<lparr>f_error := True\<rparr>) 0 1024
     = ex_folio\<lparr>f_error := True\<rparr>"
  using set_range_uptodate_error_noop [of "ex_folio\<lparr>f_error := True\<rparr>" ex_inode 0 1024]
  by simp

definition ranges_in_folio :: "folio \<Rightarrow> (size_t \<times> size_t) list \<Rightarrow> bool" where
  "ranges_in_folio f rs = list_all (\<lambda>(off, len). 0 < len \<and> off + len \<le> folio_size f) rs"

lemma ranges_in_folio_ok:
  "ranges_in_folio f rs \<Longrightarrow> folio_size f < 2 ^ 32 \<Longrightarrow> ranges_ok rs"
  by (induction rs) (auto simp: ranges_in_folio_def ranges_ok_def)

lemma iop_set_range_twice:
  "Option.bind (iomap_iop_set_range_uptodate ino f off len)
       (\<lambda>f'. iomap_iop_set_range_uptodate ino f' off len)
     = iomap_iop_set_range_uptodate ino f off len"
  by (cases "f_private f")
     (simp_all add: iomap_iop_set_range_uptodate_def to_iomap_page_def Let_def
        i_blocks_per_folio_def folio_size_def bitmap_set_def Un_assoc)

section \<open>Marking ranges valid is idempotent and follows unions\<close>

text \<open>
  C7. On a folio with a sub-block state record, a sequence of
  \<open>iomap_iop_set_range_uptodate\<close> calls with non-empty, possibly overlapping ranges
  inside the folio leaves the folio, and so its uptodate bitmap, as a single call does
  whose range is the union of theirs; and a call repeated on its own result changes
  nothing.
\<close>

theorem mark_valid_union_idempotent:
  assumes "f_private f \<noteq> None" and "folio_size f < 2 ^ 32"
    and "ranges_in_folio f rs" and "0 < l" and "o' + l \<le> folio_size f"
    and "bytes_of rs = {o' ..< o' + l}"
  shows "iop_set_ranges ino f rs = iomap_iop_set_range_uptodate ino f o' l \<and>
         Option.bind (iomap_iop_set_range_uptodate ino f off len)
             (\<lambda>f'. iomap_iop_set_range_uptodate ino f' off len)
           = iomap_iop_set_range_uptodate ino f off len"
proof
  obtain iop where iop: "f_private f = Some iop" using assms(1) by auto
  have "rs \<noteq> []" using assms(4,6) by (auto simp: bytes_of_def)
  then obtain r rs' where rs: "rs = r # rs'" by (cases rs) auto
  have "ranges_ok (r # rs')"
    using assms(2,3) rs ranges_in_folio_ok by blast
  with iop have "iop_set_ranges ino f rs
      = Some (mark_blocks ino f iop ((\<lambda>x. shr x (i_blkbits ino)) ` bytes_of rs))"
    unfolding rs by (rule iop_set_ranges_mark_blocks)
  also have "(\<lambda>x. shr x (i_blkbits ino)) ` bytes_of rs = blocks_of (i_blkbits ino) o' l"
    by (simp add: assms(6) blocks_of_image)
  also have "Some (mark_blocks ino f iop (blocks_of (i_blkbits ino) o' l))
      = iomap_iop_set_range_uptodate ino f o' l"
    using assms(2,4,5) iop by (intro iop_set_range_mark_blocks [symmetric]) simp_all
  finally show "iop_set_ranges ino f rs = iomap_iop_set_range_uptodate ino f o' l" .
next
  show "Option.bind (iomap_iop_set_range_uptodate ino f off len)
             (\<lambda>f'. iomap_iop_set_range_uptodate ino f' off len)
           = iomap_iop_set_range_uptodate ino f off len"
    by (rule iop_set_range_twice)
qed

lemma folio_size_ex [simp]: "folio_size ex_folio = 4096"
  by (simp add: folio_size_def ex_folio_def PAGE_SIZE_def PAGE_SHIFT_def)

lemma private_ex [simp]: "f_private ex_folio = Some ex_iop"
  by (simp add: ex_folio_def)

theorem mark_valid_union_idempotent_witness:
  "iop_set_ranges ex_inode ex_folio [(0, 1024), (512, 1024)]
     = iomap_iop_set_range_uptodate ex_inode ex_folio 0 1536 \<and>
   Option.bind (iomap_iop_set_range_uptodate ex_inode ex_folio 512 1024)
       (\<lambda>f'. iomap_iop_set_range_uptodate ex_inode f' 512 1024)
     = iomap_iop_set_range_uptodate ex_inode ex_folio 512 1024 \<and>
   map_option (\<lambda>f'. map_option uptodate (f_private f'))
       (iop_set_ranges ex_inode ex_folio [(0, 1024), (512, 1024)]) = Some (Some {0, 1})"
proof -
  have b: "bytes_of [(0, 1024), (512, 1024)] = {0 ..< 0 + 1536}"
    by (auto simp: bytes_of_def)
  have r: "ranges_in_folio ex_folio [(0, 1024), (512, 1024)]"
    by (simp add: ranges_in_folio_def)
  have t: "iop_set_ranges ex_inode ex_folio [(0, 1024), (512, 1024)]
     = iomap_iop_set_range_uptodate ex_inode ex_folio 0 1536 \<and>
   Option.bind (iomap_iop_set_range_uptodate ex_inode ex_folio 512 1024)
       (\<lambda>f'. iomap_iop_set_range_uptodate ex_inode f' 512 1024)
     = iomap_iop_set_range_uptodate ex_inode ex_folio 512 1024"
    using mark_valid_union_idempotent [of ex_folio "[(0, 1024), (512, 1024)]" 1536 0
        ex_inode 512 1024] b r
    by simp
  have "blocks_of 10 0 1536 = {0, 1}"
    by (auto simp: blocks_of_interval shr_def)
  then have "map_option (\<lambda>f'. map_option uptodate (f_private f'))
       (iomap_iop_set_range_uptodate ex_inode ex_folio 0 1536) = Some (Some {0, 1})"
    by (simp add: iop_set_range_mark_blocks [where iop = ex_iop] mark_blocks_def Let_def
        ex_inode_def ex_iop_def)
  with t show ?thesis by simp
qed

section \<open>Querying a sub-range\<close>

text \<open>The loop of \<open>iomap_is_partially_uptodate\<close>. The counter is 32 bits wide in the
  source and cannot wrap while it is at most \<open>last\<close>, unless \<open>last\<close> is the largest
  32-bit value.\<close>

function partially_uptodate_loop :: "nat set \<Rightarrow> nat \<Rightarrow> nat \<Rightarrow> bool" where
  "partially_uptodate_loop bm i lst =
     (if i \<le> lst then
        (if \<not> test_bit i bm then False else partially_uptodate_loop bm (Suc i) lst)
      else True)"
  by pat_completeness auto
termination
  by (relation "measure (\<lambda>(bm, i, lst). Suc lst - i)") auto

declare partially_uptodate_loop.simps [simp del]

definition iomap_is_partially_uptodate :: "inode \<Rightarrow> folio \<Rightarrow> size_t \<Rightarrow> size_t \<Rightarrow> bool" where
  "iomap_is_partially_uptodate ino f from count =
     (case to_iomap_page f of
        None \<Rightarrow> False
      | Some iop \<Rightarrow>
          let len = min (size_sub (folio_size f) from) count;
              first = to_uint (shr from (i_blkbits ino));
              lst = to_uint (shr (size_sub (size_add from len) 1) (i_blkbits ino))
          in partially_uptodate_loop (uptodate iop) first lst)"

lemma partially_uptodate_loop_eq:
  "partially_uptodate_loop bm i lst = ({i .. lst} \<subseteq> bm)"
proof (induction bm i lst rule: partially_uptodate_loop.induct)
  case (1 bm i lst)
  show ?case
  proof (cases "i \<le> lst \<and> test_bit i bm")
    case True
    then have "partially_uptodate_loop bm i lst = ({Suc i .. lst} \<subseteq> bm)"
      using "1.IH" by (subst partially_uptodate_loop.simps) simp
    moreover have "{i .. lst} = insert i {Suc i .. lst}" using True by auto
    ultimately show ?thesis using True by (simp add: test_bit_def)
  next
    case False
    then show ?thesis
      by (subst partially_uptodate_loop.simps) (auto simp: test_bit_def)
  qed
qed

text \<open>
  C10. \<open>iomap_is_partially_uptodate\<close> answers false for every sub-range when the folio
  has no sub-block state record, whatever the folio's uptodate flag; on a folio with a
  record, for a non-empty range that starts inside the folio, it answers true exactly
  when every block that the range, clipped to the folio, touches is set in the bitmap.
\<close>

theorem is_partially_uptodate_spec:
  "(to_iomap_page f = None \<longrightarrow> \<not> iomap_is_partially_uptodate ino f from count) \<and>
   (to_iomap_page f = Some iop \<and> from < folio_size f \<and> 0 < count \<and> folio_size f < 2 ^ 32
      \<longrightarrow> iomap_is_partially_uptodate ino f from count
            = (blocks_of (i_blkbits ino) from (min (folio_size f - from) count)
                 \<subseteq> uptodate iop))"
proof (intro conjI impI)
  assume "to_iomap_page f = None"
  then show "\<not> iomap_is_partially_uptodate ino f from count"
    by (simp add: iomap_is_partially_uptodate_def)
next
  assume h: "to_iomap_page f = Some iop \<and> from < folio_size f \<and> 0 < count
    \<and> folio_size f < 2 ^ 32"
  define len where "len = min (folio_size f - from) count"
  have s: "size_sub (folio_size f) from = folio_size f - from"
    using h by (intro size_sub_simple) simp_all
  have len: "0 < len" "from + len < 2 ^ 32" using h by (auto simp: len_def)
  have "iomap_is_partially_uptodate ino f from count
      = ({to_uint (shr from (i_blkbits ino)) ..
          to_uint (shr (size_sub (size_add from len) 1) (i_blkbits ino))} \<subseteq> uptodate iop)"
    using h by (simp add: iomap_is_partially_uptodate_def s len_def Let_def
        partially_uptodate_loop_eq)
  also have "\<dots> = ({shr from (i_blkbits ino) .. shr (from + len - 1) (i_blkbits ino)}
      \<subseteq> uptodate iop)"
    by (simp only: first_last_blocks(1,2) [OF len])
  also have "\<dots> = (blocks_of (i_blkbits ino) from len \<subseteq> uptodate iop)"
    by (simp only: blocks_of_interval [OF len(1)])
  finally show "iomap_is_partially_uptodate ino f from count
            = (blocks_of (i_blkbits ino) from (min (folio_size f - from) count)
                 \<subseteq> uptodate iop)"
    by (simp only: len_def)
qed

theorem is_partially_uptodate_spec_witness:
  "\<not> iomap_is_partially_uptodate ex_inode
       (ex_folio\<lparr>f_uptodate := True, f_private := None\<rparr>) 0 4096 \<and>
   iomap_is_partially_uptodate ex_inode
       (ex_folio\<lparr>f_private := Some (ex_iop\<lparr>uptodate := {1, 2}\<rparr>)\<rparr>) 1500 1000 \<and>
   \<not> iomap_is_partially_uptodate ex_inode
       (ex_folio\<lparr>f_private := Some (ex_iop\<lparr>uptodate := {1}\<rparr>)\<rparr>) 1500 1000"
proof -
  have b: "blocks_of 10 1500 1000 = {1, 2}"
    by (auto simp: blocks_of_interval shr_def)
  show ?thesis
    using is_partially_uptodate_spec [of "ex_folio\<lparr>f_uptodate := True, f_private := None\<rparr>"
        ex_inode 0 4096 ex_iop]
      is_partially_uptodate_spec [of "ex_folio\<lparr>f_private := Some (ex_iop\<lparr>uptodate := {1, 2}\<rparr>)\<rparr>"
        ex_inode 1500 1000 "ex_iop\<lparr>uptodate := {1, 2}\<rparr>"]
      is_partially_uptodate_spec [of "ex_folio\<lparr>f_private := Some (ex_iop\<lparr>uptodate := {1}\<rparr>)\<rparr>"
        ex_inode 1500 1000 "ex_iop\<lparr>uptodate := {1}\<rparr>"]
    by (simp add: to_iomap_page_def folio_size_def ex_folio_def ex_inode_def
        PAGE_SIZE_def PAGE_SHIFT_def b)
qed

section \<open>Extents and write-end\<close>

text \<open>Modelled from the spec: the extent descriptor \<open>struct iomap\<close> is declared in a
  header outside the source files. Section 3 gives its fields: the type (Hole, Unwritten,
  Mapped, Inline), the device offset, the byte length, the flags and the inline data. The
  flag word is the set of the flags that are set.\<close>

datatype iomap_type = IOMAP_HOLE | IOMAP_UNWRITTEN | IOMAP_MAPPED | IOMAP_INLINE

datatype iomap_flag = IOMAP_F_NEW | IOMAP_F_SHARED | IOMAP_F_BUFFER_HEAD | IOMAP_F_SIZE_CHANGED

record iomap =
  im_addr :: int
  im_offset :: loff_t
  im_length :: int
  im_type :: iomap_type
  im_flags :: "iomap_flag set"
  im_inline_data :: "nat \<Rightarrow> 8 word"
  im_inline_page_offset :: nat


datatype fault = BUG

text \<open>Modelled from the spec: \<open>unlock_folio\<close> is only declared in the source files
  (the Cache Page Store of section 6 implements it): it clears the locked flag.\<close>

definition unlock_folio :: "folio \<Rightarrow> folio" where
  "unlock_folio f = f\<lparr>f_locked := False\<rparr>"

text \<open>Modelled from the spec: \<open>iomap_set_page_dirty\<close> lives outside the source files;
  write-end marks the page dirty (section 4.4), and of its effects the folio's dirty flag
  is modelled.\<close>

definition iomap_set_page_dirty :: "folio \<Rightarrow> folio" where
  "iomap_set_page_dirty f = f\<lparr>f_dirty := True\<rparr>"

text \<open>\<open>uu_iomap_write_end\<close> is the source's \<open>__iomap_write_end\<close> (a name cannot begin
  with an underscore here). Flushing the data cache changes nothing of the state.\<close>

definition uu_iomap_write_end :: "inode \<Rightarrow> loff_t \<Rightarrow> size_t \<Rightarrow> size_t \<Rightarrow> folio \<Rightarrow> size_t \<times> folio" where
  "uu_iomap_write_end ino pos len copied f =
     (if copied < len \<and> \<not> f_uptodate f then (0, f)
      else (copied,
            iomap_set_page_dirty
              (iomap_set_range_uptodate ino f (offset_in_folio f pos) len)))"

text \<open>Whether every block that a range touches is valid: set in the bitmap of the
  record, or, on a folio without a record, covered by the uptodate flag.\<close>

definition range_valid :: "inode \<Rightarrow> folio \<Rightarrow> size_t \<Rightarrow> size_t \<Rightarrow> bool" where
  "range_valid ino f off len =
     (case f_private f of
        None \<Rightarrow> f_uptodate f
      | Some iop \<Rightarrow> blocks_of (i_blkbits ino) off len \<subseteq> uptodate iop)"

lemma set_range_uptodate_valid:
  assumes "\<not> f_error f" "0 < len" "off + len < 2 ^ 32"
  shows "range_valid ino (iomap_set_range_uptodate ino f off len) off len"
proof (cases "f_private f")
  case None
  then show ?thesis using assms(1)
    by (simp add: iomap_set_range_uptodate_def range_valid_def)
next
  case (Some iop)
  then show ?thesis using assms
    by (simp add: iomap_set_range_uptodate_def range_valid_def
        iop_set_range_mark_blocks [OF Some] mark_blocks_private)
qed

lemma range_valid_dirty [simp]:
  "range_valid ino (iomap_set_page_dirty f) off len = range_valid ino f off len"
  by (simp add: range_valid_def iomap_set_page_dirty_def split: option.splits)

text \<open>
  C2, as the code has it. A short copy (\<open>copied < len\<close>) into a folio whose uptodate flag
  is clear returns 0 and leaves the folio, with its bitmap and its dirty flag, untouched.
  Otherwise the call returns \<open>copied\<close> and marks the folio dirty; it marks the range of
  \<open>len\<close> bytes at the offset of \<open>pos\<close> valid unless the folio's error flag is set, and on
  a folio whose error flag is set only the dirty flag changes.
\<close>

theorem write_end_torn_or_valid:
  "(copied < len \<and> \<not> f_uptodate f \<longrightarrow> uu_iomap_write_end ino pos len copied f = (0, f)) \<and>
   (\<not> (copied < len \<and> \<not> f_uptodate f) \<longrightarrow>
      fst (uu_iomap_write_end ino pos len copied f) = copied \<and>
      f_dirty (snd (uu_iomap_write_end ino pos len copied f)) \<and>
      (f_error f \<longrightarrow> snd (uu_iomap_write_end ino pos len copied f) = f\<lparr>f_dirty := True\<rparr>) \<and>
      (\<not> f_error f \<and> 0 < len \<and> offset_in_folio f pos + len \<le> folio_size f
         \<and> folio_size f < 2 ^ 32 \<longrightarrow>
       range_valid ino (snd (uu_iomap_write_end ino pos len copied f))
         (offset_in_folio f pos) len))"
proof (intro conjI impI)
  assume "\<not> f_error f \<and> 0 < len \<and> offset_in_folio f pos + len \<le> folio_size f
         \<and> folio_size f < 2 ^ 32"
    and n: "\<not> (copied < len \<and> \<not> f_uptodate f)"
  then have "range_valid ino (iomap_set_range_uptodate ino f (offset_in_folio f pos) len)
      (offset_in_folio f pos) len"
    by (intro set_range_uptodate_valid) simp_all
  with n show "range_valid ino (snd (uu_iomap_write_end ino pos len copied f))
         (offset_in_folio f pos) len"
    by (auto simp: uu_iomap_write_end_def)
qed (auto simp: uu_iomap_write_end_def iomap_set_page_dirty_def iomap_set_range_uptodate_def)


theorem write_end_torn_or_valid_witness:
  "uu_iomap_write_end ex_inode 0 1024 512 ex_folio = (0, ex_folio) \<and>
   fst (uu_iomap_write_end ex_inode 0 1024 1024 ex_folio) = 1024 \<and>
   f_dirty (snd (uu_iomap_write_end ex_inode 0 1024 1024 ex_folio)) \<and>
   range_valid ex_inode (snd (uu_iomap_write_end ex_inode 0 1024 1024 ex_folio)) 0 1024 \<and>
   snd (uu_iomap_write_end ex_inode 0 1024 1024 (ex_folio\<lparr>f_error := True\<rparr>))
     = ex_folio\<lparr>f_error := True, f_dirty := True\<rparr>"
  using write_end_torn_or_valid [of 512 1024 ex_folio ex_inode 0]
    write_end_torn_or_valid [of 1024 1024 ex_folio ex_inode 0]
    write_end_torn_or_valid [of 1024 1024 "ex_folio\<lparr>f_error := True\<rparr>" ex_inode 0]
  by (simp add: offset_in_folio_def to_size_t_def) (simp add: ex_folio_def)

text \<open>As the claim states it, a full copy (\<open>copied = len\<close>) always marks the written
  range valid. On a folio whose error flag is set it does not: the call returns
  \<open>copied\<close> and the bitmap stays empty.\<close>

theorem write_end_marks_valid_counterexample:
  "fst (uu_iomap_write_end ex_inode 0 1024 1024 (ex_folio\<lparr>f_error := True\<rparr>)) = 1024 \<and>
   \<not> range_valid ex_inode
       (snd (uu_iomap_write_end ex_inode 0 1024 1024 (ex_folio\<lparr>f_error := True\<rparr>))) 0 1024 \<and>
   map_option uptodate
       (f_private (snd (uu_iomap_write_end ex_inode 0 1024 1024 (ex_folio\<lparr>f_error := True\<rparr>))))
     = Some {}"
  by (simp add: uu_iomap_write_end_def iomap_set_range_uptodate_def iomap_set_page_dirty_def
      range_valid_def blocks_of_def ex_folio_def ex_iop_def)

section \<open>The write-end wrapper\<close>




definition ex_iomap :: iomap where
  "ex_iomap = \<lparr>im_addr = 0, im_offset = 0, im_length = 4096, im_type = IOMAP_MAPPED,
               im_flags = {}, im_inline_data = (\<lambda>_. 5), im_inline_page_offset = 0\<rparr>"





section \<open>Write-back batches\<close>

text \<open>Modelled from the spec: \<open>struct iomap_ioend\<close> is declared in a header outside the
  source files. Section 3 gives its fields: the starting file offset, the accumulated
  byte length, the extent type, the flags and an optional filesystem-private annotation;
  \<open>io_bi_status\<close> is the completion status of its request (\<open>io_bio->bi_status\<close>). The
  list of batches merged into one (\<open>io_list\<close>) is kept beside the record.\<close>

record iomap_ioend =
  io_type :: iomap_type
  io_flags :: "iomap_flag set"
  io_size :: size_t
  io_offset :: loff_t
  io_private :: "nat option"
  io_bi_status :: nat

text \<open>The two exclusive-ors of the source compare truth values: a flag word masked
  with one flag, and the result of a comparison. The sum of a signed offset and an
  unsigned size is computed and compared in unsigned 64-bit arithmetic.\<close>

definition iomap_ioend_can_merge :: "iomap_ioend \<Rightarrow> iomap_ioend \<Rightarrow> bool" where
  "iomap_ioend_can_merge ioend nxt =
     (if io_bi_status ioend \<noteq> io_bi_status nxt then False
      else if (IOMAP_F_SHARED \<in> io_flags ioend) \<noteq> (IOMAP_F_SHARED \<in> io_flags nxt) then False
      else if (io_type ioend = IOMAP_UNWRITTEN) \<noteq> (io_type nxt = IOMAP_UNWRITTEN) then False
      else if size_add (to_size_t (io_offset ioend)) (io_size ioend)
                \<noteq> to_size_t (io_offset nxt) then False
      else True)"

text \<open>The loop of \<open>iomap_ioend_try_merge\<close>: \<open>merged\<close> is the list hanging off the first
  batch, \<open>rest\<close> the list of candidates. The optional hook \<open>merge_private\<close> gets both
  batches and returns the first one as it leaves it.\<close>

fun try_merge_loop ::
    "(iomap_ioend \<Rightarrow> iomap_ioend \<Rightarrow> iomap_ioend) option \<Rightarrow> iomap_ioend \<Rightarrow> iomap_ioend list
      \<Rightarrow> iomap_ioend list \<Rightarrow> iomap_ioend \<times> iomap_ioend list \<times> iomap_ioend list" where
  "try_merge_loop mp ioend merged [] = (ioend, merged, [])"
| "try_merge_loop mp ioend merged (nxt # rest) =
     (if \<not> iomap_ioend_can_merge ioend nxt then (ioend, merged, nxt # rest)
      else
        let ioend1 = ioend\<lparr>io_size := size_add (io_size ioend) (io_size nxt)\<rparr>;
            ioend2 = (case mp of
                        Some hook \<Rightarrow> if io_private nxt \<noteq> None then hook ioend1 nxt else ioend1
                      | None \<Rightarrow> ioend1)
        in try_merge_loop mp ioend2 (merged @ [nxt]) rest)"

definition iomap_ioend_try_merge ::
    "iomap_ioend \<Rightarrow> iomap_ioend list \<Rightarrow> (iomap_ioend \<Rightarrow> iomap_ioend \<Rightarrow> iomap_ioend) option
      \<Rightarrow> iomap_ioend \<times> iomap_ioend list \<times> iomap_ioend list" where
  "iomap_ioend_try_merge ioend more_ioends merge_private =
     try_merge_loop merge_private ioend [] more_ioends"

text \<open>A hook that changes nothing but the private annotation of the first batch.\<close>

definition private_only :: "(iomap_ioend \<Rightarrow> iomap_ioend \<Rightarrow> iomap_ioend) option \<Rightarrow> bool" where
  "private_only mp =
     (case mp of None \<Rightarrow> True
      | Some hook \<Rightarrow> (\<forall>a b. hook a b = a\<lparr>io_private := io_private (hook a b)\<rparr>))"

text \<open>The four conditions of the claim.\<close>

definition mergeable :: "iomap_ioend \<Rightarrow> iomap_ioend \<Rightarrow> bool" where
  "mergeable a b =
     (io_bi_status a = io_bi_status b \<and>
      ((IOMAP_F_SHARED \<in> io_flags a) = (IOMAP_F_SHARED \<in> io_flags b)) \<and>
      ((io_type a = IOMAP_UNWRITTEN) = (io_type b = IOMAP_UNWRITTEN)) \<and>
      io_offset b = io_offset a + int (io_size a))"

lemma to_size_t_simple: "0 \<le> x \<Longrightarrow> x < 2 ^ 64 \<Longrightarrow> to_size_t x = nat x"
  by (simp add: to_size_t_def)

lemma can_merge_iff:
  assumes "0 \<le> io_offset a" "io_offset a + int (io_size a) < 2 ^ 63"
    "0 \<le> io_offset b" "io_offset b < 2 ^ 63"
  shows "iomap_ioend_can_merge a b = mergeable a b"
proof -
  have a: "to_size_t (io_offset a) = nat (io_offset a)"
    using assms(1,2) by (intro to_size_t_simple) simp_all
  have b: "to_size_t (io_offset b) = nat (io_offset b)"
    using assms(3,4) by (intro to_size_t_simple) simp_all
  have "nat (io_offset a) + io_size a < 2 ^ 64" using assms(1,2) by simp
  then have s: "size_add (nat (io_offset a)) (io_size a) = nat (io_offset a) + io_size a"
    by (rule size_add_simple)
  have "(nat (io_offset a) + io_size a = nat (io_offset b))
      = (io_offset b = io_offset a + int (io_size a))"
    using assms(1,3) by auto
  then show ?thesis
    by (auto simp: iomap_ioend_can_merge_def mergeable_def a b s)
qed

text \<open>
  C4. For batches whose offsets and sizes are file positions (non-negative, below
  \<open>2 ^ 63\<close>), and a hook that touches the private annotation only:
  \<open>iomap_ioend_try_merge\<close> merges the head of the candidate list exactly when both have
  the same completion status, the same SHARED flag state, the same Unwritten-type state,
  and the candidate starts at the first batch's offset plus its size. A merge moves the
  candidate to the first batch's list and adds its size to the first batch's, and the
  loop goes on with the rest; with a single candidate the merged size is the sum of the
  two sizes. Any mismatch leaves the first batch and the candidate list as they were.
\<close>

theorem ioend_try_merge_spec:
  assumes "private_only mp"
    and "0 \<le> io_offset a" and "io_offset a + int (io_size a) < 2 ^ 63"
    and "0 \<le> io_offset b" and "io_offset b < 2 ^ 63"
    and "io_size a + io_size b < 2 ^ 64"
  shows "(\<not> mergeable a b \<longrightarrow> iomap_ioend_try_merge a (b # rest) mp = (a, [], b # rest)) \<and>
         (mergeable a b \<longrightarrow>
            (\<exists>a'. iomap_ioend_try_merge a (b # rest) mp = try_merge_loop mp a' [b] rest \<and>
                  a' = a\<lparr>io_size := io_size a + io_size b, io_private := io_private a'\<rparr>) \<and>
            (\<exists>a'. iomap_ioend_try_merge a [b] mp = (a', [b], []) \<and>
                  io_size a' = io_size a + io_size b \<and> io_offset a' = io_offset a))"
proof -
  have cm: "iomap_ioend_can_merge a b = mergeable a b"
    using assms(2-5) by (rule can_merge_iff)
  have sz: "size_add (io_size a) (io_size b) = io_size a + io_size b"
    using assms(6) by (rule size_add_simple)
  define a1 where "a1 = a\<lparr>io_size := io_size a + io_size b\<rparr>"
  define a2 where "a2 = (case mp of
      Some hook \<Rightarrow> if io_private b \<noteq> None then hook a1 b else a1 | None \<Rightarrow> a1)"
  have a2: "a2 = a\<lparr>io_size := io_size a + io_size b, io_private := io_private a2\<rparr>"
  proof (cases mp)
    case None
    then show ?thesis by (simp add: a2_def a1_def)
  next
    case (Some hook)
    then have h: "hook a1 b = a1\<lparr>io_private := io_private (hook a1 b)\<rparr>"
      using assms(1) by (simp add: private_only_def)
    show ?thesis
    proof (cases "io_private b \<noteq> None")
      case True
      then have "a2 = hook a1 b" using Some by (simp add: a2_def)
      then show ?thesis using h by (simp add: a1_def)
    next
      case False
      then show ?thesis using Some by (simp add: a2_def a1_def)
    qed
  qed
  have step: "mergeable a b \<Longrightarrow>
      iomap_ioend_try_merge a (b # rest') mp = try_merge_loop mp a2 [b] rest'" for rest'
    unfolding a2_def a1_def by (simp add: iomap_ioend_try_merge_def cm sz Let_def)
  have szo: "io_size a2 = io_size a + io_size b" "io_offset a2 = io_offset a"
    by (subst a2, simp)+
  show ?thesis
  proof (intro conjI impI)
    assume "\<not> mergeable a b"
    then show "iomap_ioend_try_merge a (b # rest) mp = (a, [], b # rest)"
      by (simp add: iomap_ioend_try_merge_def cm)
  next
    assume m: "mergeable a b"
    show "\<exists>a'. iomap_ioend_try_merge a (b # rest) mp = try_merge_loop mp a' [b] rest \<and>
                  a' = a\<lparr>io_size := io_size a + io_size b, io_private := io_private a'\<rparr>"
      using step [OF m] a2 by blast
  next
    assume m: "mergeable a b"
    have "iomap_ioend_try_merge a [b] mp = (a2, [b], [])"
      using step [OF m, of "[]"] by simp
    then show "\<exists>a'. iomap_ioend_try_merge a [b] mp = (a', [b], []) \<and>
                  io_size a' = io_size a + io_size b \<and> io_offset a' = io_offset a"
      using szo by blast
  qed
qed

definition ex_ioend :: iomap_ioend where
  "ex_ioend = \<lparr>io_type = IOMAP_MAPPED, io_flags = {}, io_size = 4096, io_offset = 0,
               io_private = None, io_bi_status = 0\<rparr>"

theorem ioend_try_merge_spec_witness:
  "io_size (fst (iomap_ioend_try_merge ex_ioend [ex_ioend\<lparr>io_offset := 4096\<rparr>] None)) = 8192 \<and>
   fst (snd (iomap_ioend_try_merge ex_ioend [ex_ioend\<lparr>io_offset := 4096\<rparr>] None))
     = [ex_ioend\<lparr>io_offset := 4096\<rparr>] \<and>
   iomap_ioend_try_merge ex_ioend [ex_ioend\<lparr>io_offset := 8192\<rparr>] None
     = (ex_ioend, [], [ex_ioend\<lparr>io_offset := 8192\<rparr>]) \<and>
   iomap_ioend_try_merge ex_ioend [ex_ioend\<lparr>io_offset := 4096, io_type := IOMAP_UNWRITTEN\<rparr>] None
     = (ex_ioend, [], [ex_ioend\<lparr>io_offset := 4096, io_type := IOMAP_UNWRITTEN\<rparr>])"
proof -
  have p: "private_only None" by (simp add: private_only_def)
  have "\<exists>a'. iomap_ioend_try_merge ex_ioend [ex_ioend\<lparr>io_offset := 4096\<rparr>] None
            = (a', [ex_ioend\<lparr>io_offset := 4096\<rparr>], []) \<and> io_size a' = 8192"
    using ioend_try_merge_spec [OF p, of ex_ioend "ex_ioend\<lparr>io_offset := 4096\<rparr>" "[]"]
    by (simp add: ex_ioend_def mergeable_def) blast
  then have 1: "io_size (fst (iomap_ioend_try_merge ex_ioend
        [ex_ioend\<lparr>io_offset := 4096\<rparr>] None)) = 8192"
      "fst (snd (iomap_ioend_try_merge ex_ioend [ex_ioend\<lparr>io_offset := 4096\<rparr>] None))
        = [ex_ioend\<lparr>io_offset := 4096\<rparr>]"
    by auto
  have 2: "iomap_ioend_try_merge ex_ioend [ex_ioend\<lparr>io_offset := 8192\<rparr>] None
     = (ex_ioend, [], [ex_ioend\<lparr>io_offset := 8192\<rparr>])"
    using ioend_try_merge_spec [OF p, of ex_ioend "ex_ioend\<lparr>io_offset := 8192\<rparr>" "[]"]
    by (simp add: ex_ioend_def mergeable_def)
  have 3: "iomap_ioend_try_merge ex_ioend
       [ex_ioend\<lparr>io_offset := 4096, io_type := IOMAP_UNWRITTEN\<rparr>] None
     = (ex_ioend, [], [ex_ioend\<lparr>io_offset := 4096, io_type := IOMAP_UNWRITTEN\<rparr>])"
    using ioend_try_merge_spec [OF p, of ex_ioend
        "ex_ioend\<lparr>io_offset := 4096, io_type := IOMAP_UNWRITTEN\<rparr>" "[]"]
    by (simp add: ex_ioend_def mergeable_def)
  from 1 2 3 show ?thesis by simp
qed

section \<open>The range of a folio that needs reading\<close>

definition to_loff_t :: "size_t \<Rightarrow> loff_t" where
  "to_loff_t x = (if x mod 2 ^ 64 < 2 ^ 63 then int (x mod 2 ^ 64) else int (x mod 2 ^ 64) - 2 ^ 64)"

definition uint_mul :: "nat \<Rightarrow> nat \<Rightarrow> nat" where
  "uint_mul a b = (a * b) mod 2 ^ 32"

text \<open>The first loop of \<open>iomap_adjust_read_range\<close>: move forward over each leading block
  marked uptodate. It returns the counter, the position, the offset, the length and the
  first block as the loop leaves them. As in \<open>partially_uptodate_loop\<close>, the 32-bit
  counter cannot wrap while it is at most \<open>last\<close>.\<close>

function skip_leading ::
    "nat set \<Rightarrow> nat \<Rightarrow> nat \<Rightarrow> nat \<Rightarrow> loff_t \<Rightarrow> size_t \<Rightarrow> size_t \<Rightarrow> nat
      \<Rightarrow> nat \<times> loff_t \<times> size_t \<times> size_t \<times> nat" where
  "skip_leading bm block_size lst i pos poff plen first =
     (if i \<le> lst then
        (if \<not> test_bit i bm then (i, pos, poff, plen, first)
         else skip_leading bm block_size lst (Suc i) (pos + int block_size)
                (size_add poff block_size) (size_sub plen block_size) (uint_add first 1))
      else (i, pos, poff, plen, first))"
  by pat_completeness auto
termination
  by (relation "measure (\<lambda>(bm, block_size, lst, i, pos, poff, plen, first). Suc lst - i)") auto

declare skip_leading.simps [simp del]

text \<open>The second loop: cut the length at the first uptodate block that follows. It
  returns the length and the last block.\<close>

function trim_trailing :: "nat set \<Rightarrow> nat \<Rightarrow> nat \<Rightarrow> size_t \<Rightarrow> nat \<Rightarrow> size_t \<times> nat" where
  "trim_trailing bm block_size i plen lst =
     (if i \<le> lst then
        (if test_bit i bm
         then (size_sub plen (uint_mul (uint_add (uint_sub lst i) 1) block_size), uint_sub i 1)
         else trim_trailing bm block_size (Suc i) plen lst)
      else (plen, lst))"
  by pat_completeness auto
termination
  by (relation "measure (\<lambda>(bm, block_size, i, plen, lst). Suc lst - i)") auto

declare trim_trailing.simps [simp del]

text \<open>\<open>iomap_adjust_read_range\<close> returns the position it leaves in \<open>*pos\<close>, and the
  offset and length it stores through \<open>offp\<close> and \<open>lenp\<close>.\<close>

definition iomap_adjust_read_range ::
    "inode \<Rightarrow> folio \<Rightarrow> loff_t \<Rightarrow> loff_t \<Rightarrow> loff_t \<times> size_t \<times> size_t" where
  "iomap_adjust_read_range ino f pos len =
     (let iop = to_iomap_page f;
          orig_pos = pos;
          isize = i_size ino;
          block_bits = i_blkbits ino;
          block_size = to_uint (2 ^ block_bits);
          poff = offset_in_folio f pos;
          plen = to_size_t (min (to_loff_t (size_sub (folio_size f) poff)) len);
          first = to_uint (shr poff block_bits);
          lst = to_uint (shr (size_sub (size_add poff plen) 1) block_bits);
          (pos1, poff1, plen1, first1, lst1) =
            (case iop of
               None \<Rightarrow> (pos, poff, plen, first, lst)
             | Some p \<Rightarrow>
                 (case skip_leading (uptodate p) block_size lst first pos poff plen first of
                    (i, pos', poff', plen', first') \<Rightarrow>
                      (case trim_trailing (uptodate p) block_size i plen' lst of
                         (plen'', lst') \<Rightarrow> (pos', poff', plen'', first', lst'))));
          plen2 =
            (if orig_pos \<le> isize \<and> orig_pos + len > isize then
               (let eofb = to_uint (shr (offset_in_folio f (isize - 1)) block_bits)
                in if first1 \<le> eofb \<and> lst1 > eofb
                   then size_sub plen1 (uint_mul (uint_sub lst1 eofb) block_size)
                   else plen1)
             else plen1)
      in (pos1, poff1, plen2))"

lemma skip_leading_spec:
  assumes "skip_leading B bs L i pos poff plen first = (i', pos', poff', plen', first')"
    and "i \<le> L + 1" and "first = i" and "poff = i * bs" and "plen = (L + 1 - i) * bs"
    and "(L + 1) * bs < 2 ^ 32" and "0 < bs"
  shows "i \<le> i' \<and> i' \<le> L + 1 \<and> first' = i' \<and> poff' = i' * bs \<and>
         plen' = (L + 1 - i') * bs \<and> pos' = pos + int ((i' - i) * bs) \<and>
         (\<forall>j. i \<le> j \<and> j < i' \<longrightarrow> j \<in> B) \<and> (i' \<le> L \<longrightarrow> i' \<notin> B)"
  using assms
proof (induction B bs L i pos poff plen first rule: skip_leading.induct)
  case (1 bm block_size lst i pos poff plen first)
  show ?case
  proof (cases "i \<le> lst \<and> test_bit i bm")
    case False
    then have "skip_leading bm block_size lst i pos poff plen first = (i, pos, poff, plen, first)"
      by (subst skip_leading.simps) auto
    with "1.prems" False show ?thesis by (auto simp: test_bit_def)
  next
    case True
    have le: "Suc i \<le> lst + 1" using True by simp
    have "(lst + 1) * 1 \<le> (lst + 1) * block_size"
      using "1.prems"(7) by (intro mult_le_mono2) simp
    then have b1: "Suc lst \<le> (lst + 1) * block_size" by simp
    have small: "(lst + 1) * block_size < 2 ^ 64"
      using "1.prems"(6) by (rule less_trans) simp
    have e1: "i * block_size + block_size = Suc i * block_size" by simp
    have e2: "Suc i * block_size \<le> (lst + 1) * block_size"
      using le by (intro mult_le_mono1) simp
    have "i * block_size + block_size < 2 ^ 64"
      unfolding e1 using e2 small by (rule le_less_trans)
    then have "size_add (i * block_size) block_size = i * block_size + block_size"
      by (rule size_add_simple)
    then have a: "size_add poff block_size = Suc i * block_size"
      unfolding e1 "1.prems"(4) .
    have "1 \<le> lst + 1 - i" using True by arith
    then have "1 * block_size \<le> (lst + 1 - i) * block_size" by (rule mult_le_mono1)
    then have c1: "block_size \<le> (lst + 1 - i) * block_size" by simp
    have "(lst + 1 - i) * block_size \<le> (lst + 1) * block_size"
      by (intro mult_le_mono1) simp
    then have c2: "(lst + 1 - i) * block_size < 2 ^ 64"
      using small by (rule le_less_trans)
    have "size_sub plen block_size = (lst + 1 - i) * block_size - block_size"
      unfolding "1.prems"(5) using c1 c2 by (rule size_sub_simple)
    also have "\<dots> = (lst + 1 - Suc i) * block_size"
      by (simp add: diff_mult_distrib)
    finally have s: "size_sub plen block_size = (lst + 1 - Suc i) * block_size" .
    have u: "uint_add first 1 = Suc i"
      using "1.prems"(3,6) b1 True by (simp add: uint_add_simple)
    have step: "skip_leading bm block_size lst (Suc i) (pos + int block_size)
        (size_add poff block_size) (size_sub plen block_size) (uint_add first 1)
        = (i', pos', poff', plen', first')"
      using "1.prems"(1) True by (subst (asm) skip_leading.simps) simp
    have ih: "Suc i \<le> i' \<and> i' \<le> lst + 1 \<and> first' = i' \<and> poff' = i' * block_size \<and>
         plen' = (lst + 1 - i') * block_size \<and>
         pos' = pos + int block_size + int ((i' - Suc i) * block_size) \<and>
         (\<forall>j. Suc i \<le> j \<and> j < i' \<longrightarrow> j \<in> bm) \<and> (i' \<le> lst \<longrightarrow> i' \<notin> bm)"
      using True step le u a s "1.prems"(6,7) by (intro "1.IH") simp_all
    from ih have "i' - i = Suc (i' - Suc i)" by arith
    then have "(i' - i) * block_size = block_size + (i' - Suc i) * block_size" by simp
    then have "int block_size + int ((i' - Suc i) * block_size) = int ((i' - i) * block_size)"
      by (simp only: of_nat_add)
    moreover have "\<forall>j. i \<le> j \<and> j < i' \<longrightarrow> j \<in> bm"
    proof (intro allI impI)
      fix j assume "i \<le> j \<and> j < i'"
      then show "j \<in> bm" using ih True by (cases "j = i") (auto simp: test_bit_def)
    qed
    ultimately show ?thesis using ih by auto
  qed
qed


lemma uint_mul_simple: "a * b < 2 ^ 32 \<Longrightarrow> uint_mul a b = a * b"
  by (simp add: uint_mul_def)

lemma trim_trailing_spec:
  assumes "trim_trailing B bs j plen L = (plen', lst')"
    and "j \<le> L + 1" and "0 < j \<or> 0 \<notin> B"
    and "(L + 1) * bs < 2 ^ 32" and "(L + 1 - j) * bs \<le> plen" and "plen < 2 ^ 64"
    and "0 < bs"
  shows "\<exists>t. j \<le> t \<and> t \<le> L + 1 \<and> (\<forall>x. j \<le> x \<and> x < t \<longrightarrow> x \<notin> B) \<and> (t \<le> L \<longrightarrow> t \<in> B) \<and>
             plen' = plen - (L + 1 - t) * bs \<and> Suc lst' = t"
  using assms
proof (induction B bs j plen L rule: trim_trailing.induct)
  case (1 bm block_size i plen lst)
  have "(lst + 1) * 1 \<le> (lst + 1) * block_size"
    using "1.prems"(7) by (intro mult_le_mono2) simp
  then have lb: "lst + 1 < 2 ^ 32" using "1.prems"(4) by simp
  consider (past) "\<not> i \<le> lst" | (hit) "i \<le> lst" "test_bit i bm"
    | (miss) "i \<le> lst" "\<not> test_bit i bm" by blast
  then show ?case
  proof cases
    case past
    then have "trim_trailing bm block_size i plen lst = (plen, lst)"
      by (subst trim_trailing.simps) simp
    with "1.prems"(1) have "plen' = plen" "lst' = lst" by simp_all
    moreover have "i = lst + 1" using past "1.prems"(2) by simp
    ultimately show ?thesis by (intro exI [where x = "lst + 1"]) auto
  next
    case hit
    have r: "(plen', lst') = (size_sub plen (uint_mul (uint_add (uint_sub lst i) 1) block_size),
        uint_sub i 1)"
      using "1.prems"(1) hit by (subst (asm) trim_trailing.simps) simp
    have u1: "uint_sub lst i = lst - i" using hit(1) lb by (intro uint_sub_simple) simp_all
    have u2: "uint_add (lst - i) 1 = lst - i + 1" using lb by (intro uint_add_simple) simp
    have e: "lst - i + 1 = lst + 1 - i" using hit(1) by simp
    have "(lst + 1 - i) * block_size \<le> (lst + 1) * block_size"
      by (intro mult_le_mono1) simp
    then have "(lst + 1 - i) * block_size < 2 ^ 32"
      using "1.prems"(4) by (rule le_less_trans)
    then have u3: "uint_mul (lst + 1 - i) block_size = (lst + 1 - i) * block_size"
      by (rule uint_mul_simple)
    have u4: "size_sub plen ((lst + 1 - i) * block_size) = plen - (lst + 1 - i) * block_size"
      using "1.prems"(5,6) by (rule size_sub_simple)
    have "i \<in> bm" using hit(2) by (simp add: test_bit_def)
    then have "1 \<le> i" using "1.prems"(3) by (cases i) auto
    moreover have "i < 2 ^ 32" using hit(1) lb by simp
    ultimately have u5: "uint_sub i 1 = i - 1" by (rule uint_sub_simple)
    have r': "plen' = size_sub plen (uint_mul (uint_add (uint_sub lst i) 1) block_size)"
        "lst' = uint_sub i 1"
      using r by simp_all
    have "plen' = plen - (lst + 1 - i) * block_size"
      by (simp only: r'(1) u1 u2 e u3 u4)
    moreover have "Suc lst' = i"
      using \<open>1 \<le> i\<close> unfolding r'(2) u5 by simp
    ultimately have "plen' = plen - (lst + 1 - i) * block_size" "Suc lst' = i"
      by simp_all
    then show ?thesis using hit \<open>i \<in> bm\<close> "1.prems"(2)
      by (intro exI [where x = i]) auto
  next
    case miss
    have step: "trim_trailing bm block_size (Suc i) plen lst = (plen', lst')"
      using "1.prems"(1) miss by (subst (asm) trim_trailing.simps) simp
    have "(lst + 1 - Suc i) * block_size \<le> (lst + 1 - i) * block_size"
      by (intro mult_le_mono1) simp
    then have p: "(lst + 1 - Suc i) * block_size \<le> plen"
      using "1.prems"(5) by (rule le_trans)
    have "\<exists>t. Suc i \<le> t \<and> t \<le> lst + 1 \<and> (\<forall>x. Suc i \<le> x \<and> x < t \<longrightarrow> x \<notin> bm) \<and>
        (t \<le> lst \<longrightarrow> t \<in> bm) \<and> plen' = plen - (lst + 1 - t) * block_size \<and> Suc lst' = t"
      using miss step p "1.prems"(4,6,7) by (intro "1.IH") simp_all
    then obtain t where t: "Suc i \<le> t" "t \<le> lst + 1" "\<forall>x. Suc i \<le> x \<and> x < t \<longrightarrow> x \<notin> bm"
        "t \<le> lst \<longrightarrow> t \<in> bm" "plen' = plen - (lst + 1 - t) * block_size" "Suc lst' = t"
      by blast
    have "\<forall>x. i \<le> x \<and> x < t \<longrightarrow> x \<notin> bm"
    proof (intro allI impI)
      fix x assume "i \<le> x \<and> x < t"
      then show "x \<notin> bm" using t(3) miss(2) by (cases "x = i") (auto simp: test_bit_def)
    qed
    then show ?thesis using t by (intro exI [where x = t]) auto
  qed
qed

lemma skip_leading_empty:
  "skip_leading {} bs L i pos poff plen first = (i, pos, poff, plen, first)"
  by (subst skip_leading.simps) (simp add: test_bit_def)

lemma trim_trailing_empty: "trim_trailing {} bs i plen L = (plen, L)"
proof (induction "Suc L - i" arbitrary: i)
  case 0
  then show ?case by (subst trim_trailing.simps) simp
next
  case (Suc n)
  then have "trim_trailing {} bs (Suc i) plen L = (plen, L)" by (intro Suc.hyps) simp
  then show ?case by (subst trim_trailing.simps) (simp add: test_bit_def)
qed

text \<open>The bitmap the two loops read: empty when the folio has no record, which is when
  the source skips them.\<close>

definition valid_blocks :: "folio \<Rightarrow> nat set" where
  "valid_blocks f = (case to_iomap_page f of None \<Rightarrow> {} | Some p \<Rightarrow> uptodate p)"

text \<open>The block that holds the last byte of the file, as the source computes it: from
  the offset of that byte in this folio.\<close>

definition eof_block :: "inode \<Rightarrow> folio \<Rightarrow> nat" where
  "eof_block ino f = shr (offset_in_folio f (i_size ino - 1)) (i_blkbits ino)"

lemma folio_size_pos: "0 < folio_size f"
  by (simp add: folio_size_def PAGE_SIZE_def)

lemma offset_in_folio_less: "offset_in_folio f p < folio_size f"
  by (simp add: offset_in_folio_def folio_size_pos)

lemma to_loff_t_simple: "x < 2 ^ 63 \<Longrightarrow> to_loff_t x = int x"
  by (simp add: to_loff_t_def)

lemma adjust_read_range_unfold:
  fixes len :: int
  assumes "0 < len" and "folio_size f < 2 ^ 32"
    and "2 ^ i_blkbits ino dvd offset_in_folio f pos"
    and "2 ^ i_blkbits ino dvd min (folio_size f - offset_in_folio f pos) (nat len)"
  defines "bs \<equiv> 2 ^ i_blkbits ino"
  defines "poff0 \<equiv> offset_in_folio f pos"
  defines "plen0 \<equiv> min (folio_size f - offset_in_folio f pos) (nat len)"
  defines "F \<equiv> poff0 div bs"
  defines "L \<equiv> (poff0 + plen0) div bs - 1"
  shows "iomap_adjust_read_range ino f pos len =
     (case skip_leading (valid_blocks f) bs L F pos poff0 plen0 F of
        (i, pos', poff', plen', first') \<Rightarrow>
          (case trim_trailing (valid_blocks f) bs i plen' L of
             (plen'', lst') \<Rightarrow>
               (pos', poff',
                if pos \<le> i_size ino \<and> pos + len > i_size ino
                     \<and> first' \<le> eof_block ino f \<and> lst' > eof_block ino f
                then size_sub plen'' (uint_mul (uint_sub lst' (eof_block ino f)) bs)
                else plen'')))"
    and "0 < plen0" and "poff0 = F * bs" and "(L + 1) * bs = poff0 + plen0"
    and "poff0 + plen0 \<le> folio_size f" and "F \<le> L" and "0 < bs"
proof -
  show bs: "0 < bs" by (simp add: bs_def)
  have pl: "poff0 < folio_size f" unfolding poff0_def by (rule offset_in_folio_less)
  then show p0: "0 < plen0" using assms(1) by (simp add: plen0_def poff0_def)
  show in_f: "poff0 + plen0 \<le> folio_size f" using pl by (simp add: plen0_def poff0_def)
  show pF: "poff0 = F * bs" using assms(3) by (simp add: F_def poff0_def bs_def)
  have d: "bs dvd poff0 + plen0" using assms(3,4) by (simp add: bs_def poff0_def plen0_def)
  then have m: "(poff0 + plen0) div bs * bs = poff0 + plen0" by simp
  have "bs \<le> poff0 + plen0" using d p0 by (intro dvd_imp_le) simp_all
  then have "1 \<le> (poff0 + plen0) div bs" using bs by (simp add: Suc_le_eq div_greater_zero_iff)
  then have L1: "L + 1 = (poff0 + plen0) div bs" by (simp add: L_def)
  then show Lb: "(L + 1) * bs = poff0 + plen0" using m by simp
  have "F * bs < (L + 1) * bs" using Lb pF p0 by simp
  then have "F < L + 1" unfolding mult_less_cancel2 by simp
  then show FL: "F \<le> L" by simp
  have lt32: "poff0 + plen0 < 2 ^ 32" using in_f assms(2) by (rule le_less_trans)
  have fl: "to_uint (shr poff0 (i_blkbits ino)) = shr poff0 (i_blkbits ino)"
      "to_uint (shr (size_sub (size_add poff0 plen0) 1) (i_blkbits ino))
         = shr (poff0 + plen0 - 1) (i_blkbits ino)"
    by (rule first_last_blocks(1,2) [OF p0 lt32])+
  have f1: "shr poff0 (i_blkbits ino) = F" by (simp add: shr_def F_def bs_def)
  have "(poff0 + plen0 - 1) div bs = ((L + 1) * bs - 1) div bs" by (simp only: Lb)
  also have "(L + 1) * bs - 1 = (bs - 1) + L * bs" using bs by simp
  also have "((bs - 1) + L * bs) div bs = L + (bs - 1) div bs"
    using bs by (intro div_mult_self1) simp
  also have "\<dots> = L" using bs by simp
  finally have l1: "shr (poff0 + plen0 - 1) (i_blkbits ino) = L"
    by (simp add: shr_def bs_def)
  have fF: "to_uint (shr poff0 (i_blkbits ino)) = F" by (rule trans [OF fl(1) f1])
  have lL: "to_uint (shr (size_sub (size_add poff0 plen0) 1) (i_blkbits ino)) = L"
    by (rule trans [OF fl(2) l1])
  have "bs \<le> plen0" using assms(4) p0 unfolding bs_def plen0_def by (intro dvd_imp_le) simp_all
  then have "bs < 2 ^ 32" using lt32 by simp
  then have b32: "to_uint (2 ^ i_blkbits ino) = bs"
    unfolding bs_def by (rule to_uint_simple)
  have "folio_size f - poff0 < 2 ^ 64" using assms(2) by simp
  have ss: "size_sub (folio_size f) poff0 = folio_size f - poff0"
    using pl assms(2) by (intro size_sub_simple) simp_all
  have tl: "to_loff_t (folio_size f - poff0) = int (folio_size f - poff0)"
    using assms(2) by (intro to_loff_t_simple) simp
  have "int (nat len) = len" using assms(1) by simp
  then have "min (int (folio_size f - poff0)) len
      = min (int (folio_size f - poff0)) (int (nat len))" by simp
  also have "\<dots> = int (min (folio_size f - poff0) (nat len))" by (simp only: of_nat_min)
  finally have mn: "min (int (folio_size f - poff0)) len = int plen0"
    by (simp only: plen0_def poff0_def)
  have "int plen0 < 2 ^ 64" using lt32 by simp
  then have ts: "to_size_t (int plen0) = plen0"
    by (simp add: to_size_t_simple)
  have E: "to_uint (shr (offset_in_folio f (i_size ino - 1)) (i_blkbits ino)) = eof_block ino f"
  proof -
    have "shr (offset_in_folio f (i_size ino - 1)) (i_blkbits ino)
        \<le> offset_in_folio f (i_size ino - 1)" by (rule shr_le)
    also have "\<dots> < folio_size f" by (rule offset_in_folio_less)
    finally show ?thesis using assms(2) by (simp add: eof_block_def to_uint_simple)
  qed
  have body: "(case to_iomap_page f of
         None \<Rightarrow> (pos, poff0, plen0, F, L)
       | Some p \<Rightarrow>
           (case skip_leading (uptodate p) bs L F pos poff0 plen0 F of
              (i, pos', poff', plen', first') \<Rightarrow>
                (case trim_trailing (uptodate p) bs i plen' L of
                   (plen'', lst') \<Rightarrow> (pos', poff', plen'', first', lst'))))
     = (case skip_leading (valid_blocks f) bs L F pos poff0 plen0 F of
              (i, pos', poff', plen', first') \<Rightarrow>
                (case trim_trailing (valid_blocks f) bs i plen' L of
                   (plen'', lst') \<Rightarrow> (pos', poff', plen'', first', lst')))"
    by (cases "to_iomap_page f")
       (simp_all add: valid_blocks_def skip_leading_empty trim_trailing_empty)
  show "iomap_adjust_read_range ino f pos len =
     (case skip_leading (valid_blocks f) bs L F pos poff0 plen0 F of
        (i, pos', poff', plen', first') \<Rightarrow>
          (case trim_trailing (valid_blocks f) bs i plen' L of
             (plen'', lst') \<Rightarrow>
               (pos', poff',
                if pos \<le> i_size ino \<and> pos + len > i_size ino
                     \<and> first' \<le> eof_block ino f \<and> lst' > eof_block ino f
                then size_sub plen'' (uint_mul (uint_sub lst' (eof_block ino f)) bs)
                else plen'')))"
    unfolding iomap_adjust_read_range_def Let_def poff0_def [symmetric] ss tl mn ts fF lL
      b32 E body
    by (simp split: prod.splits)
qed


lemma adjust_read_range_blocks:
  fixes len :: int
  assumes "0 < len" and "folio_size f < 2 ^ 32"
    and "2 ^ i_blkbits ino dvd offset_in_folio f pos"
    and "2 ^ i_blkbits ino dvd min (folio_size f - offset_in_folio f pos) (nat len)"
  defines "bs \<equiv> 2 ^ i_blkbits ino"
  defines "poff0 \<equiv> offset_in_folio f pos"
  defines "plen0 \<equiv> min (folio_size f - offset_in_folio f pos) (nat len)"
  defines "F \<equiv> poff0 div bs"
  defines "L \<equiv> (poff0 + plen0) div bs - 1"
  defines "E \<equiv> eof_block ino f"
  defines "B \<equiv> valid_blocks f"
  defines "straddle \<equiv> pos \<le> i_size ino \<and> pos + len > i_size ino"
  shows "\<exists>i' t'. iomap_adjust_read_range ino f pos len
              = (pos + int ((i' - F) * bs), i' * bs, (t' - i') * bs) \<and>
           F \<le> i' \<and> i' \<le> t' \<and> t' \<le> L + 1 \<and>
           (\<forall>j. F \<le> j \<and> j < i' \<longrightarrow> j \<in> B) \<and>
           (\<forall>j. i' \<le> j \<and> j < t' \<longrightarrow> j \<notin> B) \<and>
           (i' = t' \<longrightarrow> i' = L + 1) \<and>
           (t' \<le> L \<longrightarrow> t' \<in> B \<or> (straddle \<and> t' = E + 1)) \<and>
           (straddle \<and> i' \<le> E \<longrightarrow> t' \<le> E + 1)"
proof -
  note u = adjust_read_range_unfold [OF assms(1-4), folded bs_def poff0_def plen0_def,
      folded F_def L_def, folded E_def B_def]
  have lt32: "(L + 1) * bs < 2 ^ 32"
    unfolding u(4) using u(5) assms(2) by (rule le_less_trans)
  obtain i' pos' poff' plen' first' where
    sk: "skip_leading B bs L F pos poff0 plen0 F = (i', pos', poff', plen', first')"
    by (cases "skip_leading B bs L F pos poff0 plen0 F")
  have "plen0 = (L + 1) * bs - F * bs" using u(3,4) by simp
  then have pl: "plen0 = (L + 1 - F) * bs" by (simp add: diff_mult_distrib)
  have FL1: "F \<le> L + 1" using u(6) by simp
  have sks: "F \<le> i' \<and> i' \<le> L + 1 \<and> first' = i' \<and> poff' = i' * bs \<and>
         plen' = (L + 1 - i') * bs \<and> pos' = pos + int ((i' - F) * bs) \<and>
         (\<forall>j. F \<le> j \<and> j < i' \<longrightarrow> j \<in> B) \<and> (i' \<le> L \<longrightarrow> i' \<notin> B)"
    using sk FL1 refl u(3) pl lt32 u(7) by (rule skip_leading_spec)
  have a1: "F \<le> i'" and a4: "\<forall>j. F \<le> j \<and> j < i' \<longrightarrow> j \<in> B" using sks by simp_all
  obtain plen'' lst' where tr: "trim_trailing B bs i' plen' L = (plen'', lst')"
    by (cases "trim_trailing B bs i' plen' L")
  have z: "0 < i' \<or> 0 \<notin> B" using sks by (cases i') auto
  have "(L + 1 - i') * bs \<le> (L + 1) * bs" by (intro mult_le_mono1) simp
  then have p64: "plen' < 2 ^ 64" using sks lt32 by simp
  have ple: "(L + 1 - i') * bs \<le> plen'" using sks by simp
  have "\<exists>t. i' \<le> t \<and> t \<le> L + 1 \<and> (\<forall>x. i' \<le> x \<and> x < t \<longrightarrow> x \<notin> B) \<and> (t \<le> L \<longrightarrow> t \<in> B) \<and>
             plen'' = plen' - (L + 1 - t) * bs \<and> Suc lst' = t"
    using tr sks z lt32 ple p64 u(7) by (intro trim_trailing_spec) simp_all
  then obtain t where t: "i' \<le> t" "t \<le> L + 1" "\<forall>x. i' \<le> x \<and> x < t \<longrightarrow> x \<notin> B"
      "t \<le> L \<longrightarrow> t \<in> B" "plen'' = plen' - (L + 1 - t) * bs" "Suc lst' = t"
    by blast
  have "plen'' = (L + 1 - i') * bs - (L + 1 - t) * bs" using t(5) sks by simp
  also have "\<dots> = ((L + 1 - i') - (L + 1 - t)) * bs" by (simp only: diff_mult_distrib)
  also have "(L + 1 - i') - (L + 1 - t) = t - i'" using t(1,2) by simp
  finally have pl2: "plen'' = (t - i') * bs" .
  have it: "i' = t \<longrightarrow> i' = L + 1" using t(2,4) sks by auto
  have res: "iomap_adjust_read_range ino f pos len =
      (pos', poff',
       if straddle \<and> first' \<le> E \<and> lst' > E
       then size_sub plen'' (uint_mul (uint_sub lst' E) bs) else plen'')"
    by (simp add: u(1) sk tr straddle_def)
  show ?thesis
  proof (cases "straddle \<and> first' \<le> E \<and> lst' > E")
    case False
    have "iomap_adjust_read_range ino f pos len = (pos', poff', plen'')"
      by (simp only: res if_not_P [OF False])
    then have r: "iomap_adjust_read_range ino f pos len
        = (pos + int ((i' - F) * bs), i' * bs, (t - i') * bs)"
      using sks pl2 by simp
    have a8: "straddle \<and> i' \<le> E \<longrightarrow> t \<le> E + 1" using False sks t(6) by auto
    have a7: "t \<le> L \<longrightarrow> t \<in> B \<or> (straddle \<and> t = E + 1)" using t(4) by simp
    show ?thesis using r a1 t(1,2) a4 t(3) it a7 a8 by blast
  next
    case True
    then have c: "i' \<le> E" "E < lst'" "straddle" using sks by simp_all
    have lt: "lst' < L + 1" using t(2,6) by simp
    have l32: "lst' < 2 ^ 32"
    proof -
      have "(L + 1) * 1 \<le> (L + 1) * bs" using u(7) by (intro mult_le_mono2) simp
      then show ?thesis using lt lt32 by simp
    qed
    have u1: "uint_sub lst' E = lst' - E" using c(2) l32 by (intro uint_sub_simple) simp_all
    have "(lst' - E) * bs \<le> (L + 1) * bs" using lt by (intro mult_le_mono1) simp
    then have m32: "(lst' - E) * bs < 2 ^ 32" using lt32 by (rule le_less_trans)
    then have u2: "uint_mul (lst' - E) bs = (lst' - E) * bs" by (rule uint_mul_simple)
    have "lst' - E \<le> t - i'" using c t(6) by simp
    then have le: "(lst' - E) * bs \<le> (t - i') * bs" by (rule mult_le_mono1)
    have "(t - i') * bs \<le> (L + 1) * bs" using t(2) by (intro mult_le_mono1) simp
    then have "(t - i') * bs < 2 ^ 64" using lt32 by simp
    with le have u3: "size_sub ((t - i') * bs) ((lst' - E) * bs)
        = (t - i') * bs - (lst' - E) * bs"
      by (rule size_sub_simple)
    have "(t - i') * bs - (lst' - E) * bs = ((t - i') - (lst' - E)) * bs"
      by (simp only: diff_mult_distrib)
    also have "(t - i') - (lst' - E) = E + 1 - i'" using c t(1,6) by simp
    finally have u4: "(t - i') * bs - (lst' - E) * bs = (E + 1 - i') * bs" .
    have "iomap_adjust_read_range ino f pos len
        = (pos', poff', size_sub plen'' (uint_mul (uint_sub lst' E) bs))"
      by (simp only: res if_P [OF True])
    also have "size_sub plen'' (uint_mul (uint_sub lst' E) bs) = (E + 1 - i') * bs"
      by (simp only: pl2 u1 u2 u3 u4)
    finally have r: "iomap_adjust_read_range ino f pos len
        = (pos + int ((i' - F) * bs), i' * bs, (E + 1 - i') * bs)"
      using sks by simp
    have 1: "E + 1 \<le> L + 1" using c(2) lt by simp
    have 2: "\<forall>j. i' \<le> j \<and> j < E + 1 \<longrightarrow> j \<notin> B" using t(3,6) c(2) by auto
    have 3: "i' \<le> E + 1" using c(1) by simp
    have 4: "i' = E + 1 \<longrightarrow> i' = L + 1" using c(1) by simp
    have 5: "E + 1 \<le> L \<longrightarrow> E + 1 \<in> B \<or> (straddle \<and> E + 1 = E + 1)" using c(3) by simp
    have 6: "straddle \<and> i' \<le> E \<longrightarrow> E + 1 \<le> E + 1" by simp
    show ?thesis using r a1 3 1 a4 2 4 5 6 by blast
  qed
qed

lemma image_div_aligned:
  fixes bs :: nat
  assumes "0 < bs"
  shows "(\<lambda>x. x div bs) ` {a * bs ..< a * bs + n * bs} = {a ..< a + n}"
proof (intro equalityI subsetI)
  fix b assume "b \<in> (\<lambda>x. x div bs) ` {a * bs ..< a * bs + n * bs}"
  then obtain x where x: "a * bs \<le> x" "x < a * bs + n * bs" "b = x div bs" by auto
  have "a \<le> x div bs" using x(1) assms by (simp add: less_eq_div_iff_mult_less_eq)
  moreover have "x < (a + n) * bs" using x(2) by (simp add: add_mult_distrib)
  then have "x div bs < a + n" using assms by (simp add: div_less_iff_less_mult)
  ultimately show "b \<in> {a ..< a + n}" using x(3) by simp
next
  fix b assume b: "b \<in> {a ..< a + n}"
  then have "a * bs \<le> b * bs" by (intro mult_le_mono1) simp
  moreover have "b * bs < (a + n) * bs" using b assms by simp
  then have "b * bs < a * bs + n * bs" by (simp add: add_mult_distrib)
  moreover have "b * bs div bs = b" using assms by simp
  ultimately show "b \<in> (\<lambda>x. x div bs) ` {a * bs ..< a * bs + n * bs}"
    by (intro image_eqI [where x = "b * bs"]) simp_all
qed

lemma blocks_of_aligned:
  "blocks_of bits (a * 2 ^ bits) (n * 2 ^ bits) = {a ..< a + n}"
  unfolding blocks_of_def shr_def by (rule image_div_aligned) simp

section \<open>What the needed range is\<close>

text \<open>
  C3, as the code has it. For a request that starts on a block boundary of the folio and
  covers whole blocks of it (\<open>len\<close> bytes from \<open>pos\<close>, clipped to the end of the folio),
  \<open>iomap_adjust_read_range\<close> returns a span of whole blocks inside the request, and the
  position moved forward with the offset. The blocks skipped in front of the span are all
  valid, no block of the span is valid, and an empty span means the whole request was
  skipped. The span ends before the end of the request only at a valid block or at the
  cut after the block that holds the offset, in this folio, of the last byte of the file.
  This cut is made when the request starts at or before the file size and extends past
  it, and the span left by the skipping starts in or before that block: then the span
  ends with that block at the latest.
\<close>

theorem adjust_read_range_spec:
  fixes len :: int
  assumes "0 < len" and "folio_size f < 2 ^ 32"
    and "2 ^ i_blkbits ino dvd offset_in_folio f pos"
    and "2 ^ i_blkbits ino dvd min (folio_size f - offset_in_folio f pos) (nat len)"
    and "iomap_adjust_read_range ino f pos len = (pos', poff', plen')"
  defines "bits \<equiv> i_blkbits ino"
  defines "poff0 \<equiv> offset_in_folio f pos"
  defines "plen0 \<equiv> min (folio_size f - offset_in_folio f pos) (nat len)"
  defines "straddle \<equiv> pos \<le> i_size ino \<and> pos + len > i_size ino"
  shows "poff0 \<le> poff' \<and> poff' + plen' \<le> poff0 + plen0 \<and>
         pos' = pos + int (poff' - poff0) \<and>
         2 ^ bits dvd (poff' - poff0) \<and> 2 ^ bits dvd plen' \<and>
         blocks_of bits poff0 (poff' - poff0) \<subseteq> valid_blocks f \<and>
         blocks_of bits poff' plen' \<inter> valid_blocks f = {} \<and>
         (plen' = 0 \<longrightarrow> poff' = poff0 + plen0) \<and>
         (poff' + plen' < poff0 + plen0 \<longrightarrow>
            shr (poff' + plen') bits \<in> valid_blocks f \<or>
            (straddle \<and> poff' + plen' = (eof_block ino f + 1) * 2 ^ bits)) \<and>
         (straddle \<and> shr poff' bits \<le> eof_block ino f \<longrightarrow>
            poff' + plen' \<le> (eof_block ino f + 1) * 2 ^ bits)"
proof -
  define bs :: nat where "bs = 2 ^ bits"
  define F where "F = poff0 div bs"
  define L where "L = (poff0 + plen0) div bs - 1"
  define E where "E = eof_block ino f"
  define B where "B = valid_blocks f"
  note u = adjust_read_range_unfold(2-7) [OF assms(1-4), folded bits_def, folded bs_def
      poff0_def plen0_def, folded F_def L_def]
  note b = adjust_read_range_blocks [OF assms(1-4), folded bits_def, folded bs_def
      poff0_def plen0_def, folded F_def L_def, folded E_def B_def straddle_def]
  from b obtain i' t' where
    r: "iomap_adjust_read_range ino f pos len
          = (pos + int ((i' - F) * bs), i' * bs, (t' - i') * bs)"
    and o: "F \<le> i'" "i' \<le> t'" "t' \<le> L + 1"
    and sk: "\<forall>j. F \<le> j \<and> j < i' \<longrightarrow> j \<in> B"
    and sp: "\<forall>j. i' \<le> j \<and> j < t' \<longrightarrow> j \<notin> B"
    and em: "i' = t' \<longrightarrow> i' = L + 1"
    and en: "t' \<le> L \<longrightarrow> t' \<in> B \<or> (straddle \<and> t' = E + 1)"
    and cl: "straddle \<and> i' \<le> E \<longrightarrow> t' \<le> E + 1"
    by blast
  from r assms(5) have res: "pos' = pos + int ((i' - F) * bs)" "poff' = i' * bs"
      "plen' = (t' - i') * bs"
    by simp_all
  have bs0: "0 < bs" by (simp add: bs_def)
  have p0: "poff0 = F * bs" by (rule u(2))
  have tot: "poff0 + plen0 = (L + 1) * bs" by (rule u(3) [symmetric])
  have d: "poff' - poff0 = (i' - F) * bs" by (simp add: res p0 diff_mult_distrib)
  have e: "poff' + plen' = t' * bs"
    using o(2) by (simp add: res add_mult_distrib [symmetric])
  have c1: "poff0 \<le> poff'" unfolding res p0 using o(1) by (rule mult_le_mono1)
  have c2: "poff' + plen' \<le> poff0 + plen0" unfolding e tot using o(3) by (rule mult_le_mono1)
  have c3: "pos' = pos + int (poff' - poff0)" by (simp only: res(1) d)
  have c4: "2 ^ bits dvd (poff' - poff0)" "2 ^ bits dvd plen'"
    unfolding d res(3) bs_def by simp_all
  have "blocks_of bits poff0 (poff' - poff0)
      = blocks_of bits (F * 2 ^ bits) ((i' - F) * 2 ^ bits)"
    unfolding d unfolding p0 bs_def by (rule refl)
  also have "\<dots> = {F ..< F + (i' - F)}" by (rule blocks_of_aligned)
  finally have "blocks_of bits poff0 (poff' - poff0) = {F ..< F + (i' - F)}" .
  then have c5: "blocks_of bits poff0 (poff' - poff0) \<subseteq> valid_blocks f"
    using sk by (auto simp: B_def)
  have "blocks_of bits poff' plen' = {i' ..< i' + (t' - i')}"
    unfolding res bs_def by (rule blocks_of_aligned)
  then have c6: "blocks_of bits poff' plen' \<inter> valid_blocks f = {}"
    using sp by (auto simp: B_def)
  have c7: "plen' = 0 \<longrightarrow> poff' = poff0 + plen0"
  proof
    assume "plen' = 0"
    then have "t' - i' = 0" using bs0 by (simp add: res)
    then have "i' = t'" using o(2) by simp
    then have "i' = L + 1" using em by simp
    then show "poff' = poff0 + plen0" by (simp only: res tot)
  qed
  have sh: "shr (t' * bs) bits = t'" by (simp add: shr_def bs_def)
  have c8: "poff' + plen' < poff0 + plen0 \<longrightarrow>
            shr (poff' + plen') bits \<in> valid_blocks f \<or>
            (straddle \<and> poff' + plen' = (eof_block ino f + 1) * 2 ^ bits)"
  proof
    assume "poff' + plen' < poff0 + plen0"
    then have "t' * bs < (L + 1) * bs" by (simp only: e tot)
    then have "t' < L + 1" unfolding mult_less_cancel2 by simp
    then have "t' \<in> B \<or> (straddle \<and> t' = E + 1)" using en by simp
    then show "shr (poff' + plen') bits \<in> valid_blocks f \<or>
            (straddle \<and> poff' + plen' = (eof_block ino f + 1) * 2 ^ bits)"
      unfolding e sh by (auto simp: B_def E_def bs_def)
  qed
  have si: "shr poff' bits = i'" by (simp add: res shr_def bs_def)
  have c9: "straddle \<and> shr poff' bits \<le> eof_block ino f \<longrightarrow>
            poff' + plen' \<le> (eof_block ino f + 1) * 2 ^ bits"
  proof
    assume "straddle \<and> shr poff' bits \<le> eof_block ino f"
    then have "t' \<le> E + 1" using cl by (simp add: si E_def)
    then have "t' * bs \<le> (E + 1) * bs" by (rule mult_le_mono1)
    then show "poff' + plen' \<le> (eof_block ino f + 1) * 2 ^ bits"
      by (simp only: e E_def bs_def)
  qed
  show ?thesis by (intro conjI c1 c2 c3 c4 c5 c6 c7 c8 c9)
qed

lemma ex_inode_simps:
  "i_blkbits ex_inode = 10" "i_size ex_inode = 4096" "i_mapping_error ex_inode = False"
  by (simp_all add: ex_inode_def)

lemma ex_iop_simps:
  "read_bytes_pending ex_iop = 0" "write_bytes_pending ex_iop = 0" "uptodate ex_iop = {}"
  by (simp_all add: ex_iop_def)

lemma ex_folio_simps:
  "f_index ex_folio = 0" "f_order ex_folio = 0" "f_locked ex_folio = True"
  "f_uptodate ex_folio = False" "f_error ex_folio = False" "f_dirty ex_folio = False"
  "f_writeback ex_folio = False" "f_private ex_folio = Some ex_iop" "f_data ex_folio = (\<lambda>_. 7)"
  by (simp_all add: ex_folio_def)

lemma folio_size_eval: "folio_size f = 4096 * 2 ^ f_order f"
  by (simp add: folio_size_def PAGE_SIZE_def PAGE_SHIFT_def)

lemmas ex_simps = ex_inode_simps ex_iop_simps ex_folio_simps folio_size_eval
  offset_in_folio_def to_size_t_def to_iomap_page_def valid_blocks_def eof_block_def shr_def

lemma adjust_example_clipped:
  "iomap_adjust_read_range (ex_inode\<lparr>i_size := 1000\<rparr>) ex_folio 0 4096 = (0, 0, 1024)"
proof -
  have "iomap_adjust_read_range (ex_inode\<lparr>i_size := 1000\<rparr>) ex_folio 0 4096
      = (0, 0, size_sub 4096 (uint_mul (uint_sub 3 0) 1024))"
    by (subst adjust_read_range_unfold(1))
       (simp_all add: ex_simps skip_leading_empty trim_trailing_empty)
  also have "size_sub 4096 (uint_mul (uint_sub 3 0) 1024) = 1024"
    by (simp add: size_sub_def uint_mul_def uint_sub_def)
  finally show ?thesis .
qed

theorem adjust_read_range_spec_witness:
  "iomap_adjust_read_range (ex_inode\<lparr>i_size := 1000\<rparr>) ex_folio 0 4096 = (0, 0, 1024) \<and>
   0 + 1024 \<le> offset_in_folio ex_folio 0
       + min (folio_size ex_folio - offset_in_folio ex_folio 0) (nat 4096) \<and>
   blocks_of (i_blkbits (ex_inode\<lparr>i_size := 1000\<rparr>)) 0 1024 \<inter> valid_blocks ex_folio = {} \<and>
   2 ^ i_blkbits (ex_inode\<lparr>i_size := 1000\<rparr>) dvd (1024 :: nat)"
proof -
  have h1: "(0::int) < 4096" by simp
  have h2: "folio_size ex_folio < 2 ^ 32" by simp
  have o: "offset_in_folio ex_folio 0 = 0" by (simp add: offset_in_folio_def to_size_t_def)
  have h3: "2 ^ i_blkbits (ex_inode\<lparr>i_size := 1000\<rparr>) dvd offset_in_folio ex_folio 0"
    by (simp only: o dvd_0_right)
  have "min (folio_size ex_folio - offset_in_folio ex_folio 0) (nat 4096) = 4 * 2 ^ 10"
    by (simp add: o)
  then have h4: "2 ^ i_blkbits (ex_inode\<lparr>i_size := 1000\<rparr>)
      dvd min (folio_size ex_folio - offset_in_folio ex_folio 0) (nat 4096)"
    by (simp add: ex_inode_simps)
  show ?thesis
    using adjust_example_clipped
      adjust_read_range_spec [OF h1 h2 h3 h4 adjust_example_clipped]
    by blast
qed

lemma adjust_example_unaligned:
  "iomap_adjust_read_range (ex_inode\<lparr>i_size := 1000\<rparr>)
       (ex_folio\<lparr>f_private := Some (ex_iop\<lparr>uptodate := {0}\<rparr>)\<rparr>) 100 924
     = (1124, 1124, 18446744073709551516)"
proof -
  have a: "to_loff_t (size_sub 4096 100) = 3996"
    by (simp add: to_loff_t_def size_sub_def)
  have b: "to_uint (shr (size_sub (size_add 100 924) 1) 10) = 0"
    by (simp add: to_uint_def shr_def size_sub_def size_add_def)
  have b': "to_uint (shr (size_sub (size_add 100 924) (Suc 0)) 10) = 0"
    using b by simp
  have c: "to_uint (2 ^ 10) = 1024" "to_uint (shr 100 10) = 0" "to_uint (shr 999 10) = 0"
      "to_uint 1024 = 1024"
    by (simp_all add: to_uint_def shr_def)
  have d: "skip_leading {0} 1024 0 0 100 100 924 0
      = (1, 1124, 1124, 18446744073709551516, 1)"
    by (simp add: skip_leading.simps test_bit_def size_add_def size_sub_def uint_add_def)
  have e: "trim_trailing {0} 1024 (Suc 0) 18446744073709551516 0 = (18446744073709551516, 0)"
    by (simp add: trim_trailing.simps)
  show ?thesis
    by (simp add: iomap_adjust_read_range_def Let_def ex_inode_simps ex_folio_simps
        ex_iop_simps folio_size_eval offset_in_folio_def to_size_t_def to_iomap_page_def
        a b b' c d e)
qed

text \<open>As the claim states it, a request that starts at or before the end of the file and
  extends past it never gets a block that lies wholly beyond the block of the last file
  byte, and the span returned lies inside the request whatever the request is. Here the
  file has 1000 bytes and block 0 is valid. For a request that covers the folio the span
  returned is blocks 1 to 3, all of them beyond the end of the file. For the request of
  924 bytes at offset 100, which does not start on a block boundary, the length wraps
  around below zero.\<close>

theorem adjust_read_range_eof_counterexample:
  "iomap_adjust_read_range (ex_inode\<lparr>i_size := 1000\<rparr>)
       (ex_folio\<lparr>f_private := Some (ex_iop\<lparr>uptodate := {0}\<rparr>)\<rparr>) 0 4096
     = (1024, 1024, 3072) \<and>
   0 \<le> i_size (ex_inode\<lparr>i_size := 1000\<rparr>) \<and>
   0 + 4096 > i_size (ex_inode\<lparr>i_size := 1000\<rparr>) \<and>
   shr (nat (i_size (ex_inode\<lparr>i_size := 1000\<rparr>) - 1)) 10 = 0 \<and>
   blocks_of 10 1024 3072 = {1, 2, 3} \<and>
   iomap_adjust_read_range (ex_inode\<lparr>i_size := 1000\<rparr>)
       (ex_folio\<lparr>f_private := Some (ex_iop\<lparr>uptodate := {0}\<rparr>)\<rparr>) 100 924
     = (1124, 1124, 18446744073709551516)"
proof -
  have "iomap_adjust_read_range (ex_inode\<lparr>i_size := 1000\<rparr>)
       (ex_folio\<lparr>f_private := Some (ex_iop\<lparr>uptodate := {0}\<rparr>)\<rparr>) 0 4096
     = (1024, 1024, 3072)"
    by (subst adjust_read_range_unfold(1))
       (simp_all add: ex_simps skip_leading.simps trim_trailing.simps test_bit_def
          size_add_def size_sub_def uint_add_def uint_sub_def)
  moreover have "blocks_of 10 (1 * 2 ^ 10) (3 * 2 ^ 10) = {1 ..< 1 + 3}"
    by (rule blocks_of_aligned)
  then have "blocks_of 10 1024 3072 = {1 ..< 4}" by simp
  moreover have "{1 ..< 4 :: nat} = {1, 2, 3}" by auto
  moreover have "shr (nat (i_size (ex_inode\<lparr>i_size := 1000\<rparr>) - 1)) 10 = 0"
    by (simp add: shr_def)
  ultimately show ?thesis using adjust_example_unaligned by simp
qed

section \<open>Read completion, write-begin and write-back completion\<close>

text \<open>Modelled from the spec: \<open>zero_user\<close> and \<open>zero_user_segments\<close> (memory-zeroing of
  byte ranges of a page) are declared in a header outside the source files. Their
  parameters are \<open>unsigned\<close>: the callers below cut their \<open>size_t\<close> arguments to 32 bits
  with \<open>to_uint\<close>, and \<open>zero_user\<close> zeroes from \<open>start\<close> to the 32-bit sum
  \<open>start + size\<close>, that is, nothing when the sum wraps below \<open>start\<close>.\<close>

definition zero_user_segments :: "folio \<Rightarrow> nat \<Rightarrow> nat \<Rightarrow> nat \<Rightarrow> nat \<Rightarrow> folio" where
  "zero_user_segments f start1 end1 start2 end2 =
     f\<lparr>f_data := (\<lambda>i. if (start1 \<le> i \<and> i < end1) \<or> (start2 \<le> i \<and> i < end2) then 0
                      else f_data f i)\<rparr>"

definition zero_user :: "folio \<Rightarrow> nat \<Rightarrow> nat \<Rightarrow> folio" where
  "zero_user f start sz =
     f\<lparr>f_data := (\<lambda>i. if start \<le> i \<and> i < uint_add start sz then 0 else f_data f i)\<rparr>"

text \<open>Modelled from the spec: the pending counters are atomic, with a
  decrement-and-test primitive (section 5); \<open>atomic_add\<close> and \<open>atomic_sub_and_test\<close> are
  declared in a header outside the source files. The counters are \<open>atomic_t\<close>, a 32-bit
  signed \<open>int\<close>, and both primitives take an \<open>int\<close>: \<open>to_c_int\<close> is the conversion to it,
  which cuts the \<open>size_t\<close> byte count the callers pass. \<open>atomic_add i v\<close> is the counter
  after the addition to the counter \<open>v\<close>; \<open>atomic_sub_and_test i v\<close> is whether the counter
  has reached zero, and the counter after the subtraction.\<close>

definition to_c_int :: "int \<Rightarrow> int" where
  "to_c_int x = (x + 2 ^ 31) mod 2 ^ 32 - 2 ^ 31"

definition atomic_add :: "int \<Rightarrow> int \<Rightarrow> int" where
  "atomic_add i v = to_c_int (v + to_c_int i)"

definition atomic_sub_and_test :: "int \<Rightarrow> int \<Rightarrow> bool \<times> int" where
  "atomic_sub_and_test i v = (to_c_int (v - to_c_int i) = 0, to_c_int (v - to_c_int i))"

lemma atomic_sub_and_test_simple:
  "0 \<le> v \<Longrightarrow> v < 2 ^ 31 \<Longrightarrow> i \<le> v \<Longrightarrow> 0 \<le> i \<Longrightarrow>
   atomic_sub_and_test i v = (v = i, v - i)"
  by (simp add: atomic_sub_and_test_def to_c_int_def)

lemma atomic_sub_and_test_wrap: "atomic_sub_and_test (2 ^ 32) 0 = (True, 0)"
  by (simp add: atomic_sub_and_test_def to_c_int_def)

definition iomap_finish_folio_read :: "inode \<Rightarrow> folio \<Rightarrow> size_t \<Rightarrow> size_t \<Rightarrow> int \<Rightarrow> folio" where
  "iomap_finish_folio_read ino f offset len error =
     (let iop = to_iomap_page f;
          f1 = (if error \<noteq> 0 then f\<lparr>f_uptodate := False, f_error := True\<rparr>
                else iomap_set_range_uptodate ino f offset len);
          f2 = (case iop of
                  None \<Rightarrow> f1
                | Some _ \<Rightarrow>
                    f1\<lparr>f_private := map_option
                         (\<lambda>p. p\<lparr>read_bytes_pending :=
                                   snd (atomic_sub_and_test (int len) (read_bytes_pending p))\<rparr>)
                         (f_private f1)\<rparr>)
      in if iop = None
            \<or> (case f_private f1 of
                  None \<Rightarrow> True
                | Some p \<Rightarrow> fst (atomic_sub_and_test (int len) (read_bytes_pending p)))
         then unlock_folio f2 else f2)"

text \<open>Modelled from the spec: \<open>end_folio_writeback\<close> is only declared in the source
  files: it clears the under-writeback flag (section 4.5).\<close>

definition end_folio_writeback :: "folio \<Rightarrow> folio" where
  "end_folio_writeback f = f\<lparr>f_writeback := False\<rparr>"

definition iomap_finish_folio_write :: "inode \<Rightarrow> folio \<Rightarrow> size_t \<Rightarrow> int \<Rightarrow> inode \<times> folio" where
  "iomap_finish_folio_write ino f len error =
     (let iop = to_iomap_page f;
          ino1 = (if error \<noteq> 0 then ino\<lparr>i_mapping_error := True\<rparr> else ino);
          f1 = (if error \<noteq> 0 then f\<lparr>f_error := True\<rparr> else f);
          f2 = (case iop of
                  None \<Rightarrow> f1
                | Some p \<Rightarrow>
                    f1\<lparr>f_private :=
                         Some (p\<lparr>write_bytes_pending :=
                                   snd (atomic_sub_and_test (int len) (write_bytes_pending p))\<rparr>)\<rparr>)
      in (ino1,
          if iop = None
             \<or> (case iop of
                   None \<Rightarrow> True
                 | Some p \<Rightarrow> fst (atomic_sub_and_test (int len) (write_bytes_pending p)))
          then end_folio_writeback f2 else f2))"

definition iomap_block_needs_zeroing :: "inode \<Rightarrow> iomap \<Rightarrow> loff_t \<Rightarrow> bool" where
  "iomap_block_needs_zeroing ino im pos =
     (im_type im \<noteq> IOMAP_MAPPED \<or> IOMAP_F_NEW \<in> im_flags im \<or> pos \<ge> i_size ino)"

text \<open>The loop of \<open>__iomap_write_begin\<close>. The synchronous read of the source goes to
  the block layer: \<open>read_sync block_start poff plen\<close> is its status and the bytes it
  brings. \<open>unshare\<close> is the flag \<open>IOMAP_WRITE_F_UNSHARE\<close>.\<close>

lemma skip_leading_pos_mono:
  "skip_leading bm bs L i pos poff plen first = (i', pos', r) \<Longrightarrow> pos \<le> pos'"
proof (induction bm bs L i pos poff plen first rule: skip_leading.induct)
  case (1 bm block_size lst i pos poff plen first)
  show ?case
  proof (cases "i \<le> lst \<and> test_bit i bm")
    case True
    then have "skip_leading bm block_size lst (Suc i) (pos + int block_size)
        (size_add poff block_size) (size_sub plen block_size) (uint_add first 1) = (i', pos', r)"
      using "1.prems" by (subst (asm) skip_leading.simps) simp
    then have "pos + int block_size \<le> pos'" using True by (intro "1.IH") simp_all
    then show ?thesis by simp
  next
    case False
    then show ?thesis using "1.prems"
      by (subst (asm) skip_leading.simps) (auto split: if_splits)
  qed
qed

lemma adjust_read_range_pos_mono:
  "iomap_adjust_read_range ino f pos len = (pos', r) \<Longrightarrow> pos \<le> pos'"
  by (auto simp: iomap_adjust_read_range_def Let_def split: option.splits prod.splits
      dest: skip_leading_pos_mono)

lemma adjust_read_range_pos_mono':
  "(pos', r) = iomap_adjust_read_range ino f pos len \<Longrightarrow> pos \<le> pos'"
  by (rule adjust_read_range_pos_mono [OF sym])

function write_begin_loop ::
    "(loff_t \<Rightarrow> size_t \<Rightarrow> size_t \<Rightarrow> int \<times> (nat \<Rightarrow> 8 word)) \<Rightarrow> inode \<Rightarrow> bool \<Rightarrow> iomap
      \<Rightarrow> size_t \<Rightarrow> size_t \<Rightarrow> loff_t \<Rightarrow> folio \<Rightarrow> loff_t \<Rightarrow> int \<times> folio" where
  "write_begin_loop read_sync ino unshare srcmap from to block_end f block_start =
     (case iomap_adjust_read_range ino f block_start (block_end - block_start) of
        (block_start1, poff, plen) \<Rightarrow>
          if plen = 0 then (0, f)
          else if \<not> unshare \<and> (from \<le> poff \<or> from \<ge> size_add poff plen)
                    \<and> (to \<le> poff \<or> to \<ge> size_add poff plen) then
            (if block_start1 + int plen < block_end
             then write_begin_loop read_sync ino unshare srcmap from to block_end f
                    (block_start1 + int plen)
             else (0, f))
          else if iomap_block_needs_zeroing ino srcmap block_start1 then
            (if unshare then (- 5, f)
             else
               let f' = iomap_set_range_uptodate ino
                          (zero_user_segments f (to_uint poff) (to_uint from) (to_uint to)
                             (to_uint (size_add poff plen))) poff plen
               in if block_start1 + int plen < block_end
                  then write_begin_loop read_sync ino unshare srcmap from to block_end f'
                         (block_start1 + int plen)
                  else (0, f'))
          else
            (case read_sync block_start1 poff plen of
               (status, bytes) \<Rightarrow>
                 let fr = f\<lparr>f_data := (\<lambda>i. if poff \<le> i \<and> i < poff + plen then bytes (i - poff)
                                          else f_data f i)\<rparr>
                 in if status \<noteq> 0 then (status, fr)
                    else
                      let f' = iomap_set_range_uptodate ino fr poff plen
                      in if block_start1 + int plen < block_end
                         then write_begin_loop read_sync ino unshare srcmap from to block_end f'
                                (block_start1 + int plen)
                         else (0, f')))"
  by pat_completeness auto
termination
  by (relation "measure (\<lambda>(read_sync, ino, unshare, srcmap, from, to, block_end, f, block_start).
        nat (block_end - block_start))")
     (auto dest: adjust_read_range_pos_mono')

declare write_begin_loop.simps [simp del]


text \<open>\<open>uu_iomap_write_begin\<close> is the source's \<open>__iomap_write_begin\<close>. \<open>round_down\<close> and
  \<open>round_up\<close> to the block size are written out.\<close>

definition uu_iomap_write_begin ::
    "(loff_t \<Rightarrow> size_t \<Rightarrow> size_t \<Rightarrow> int \<times> (nat \<Rightarrow> 8 word)) \<Rightarrow> inode \<Rightarrow> loff_t \<Rightarrow> nat \<Rightarrow> bool
      \<Rightarrow> folio \<Rightarrow> iomap \<Rightarrow> int \<times> folio" where
  "uu_iomap_write_begin read_sync ino pos len unshare f srcmap =
     (let block_size = 2 ^ i_blkbits ino;
          block_start = pos - pos mod block_size;
          block_end = ((pos + int len - 1) div block_size + 1) * block_size;
          from = offset_in_folio f pos;
          to = size_add from len;
          f1 = snd (iomap_page_create ino f)
      in if f_uptodate f1 then (0, f1)
         else write_begin_loop read_sync ino unshare srcmap from to block_end
                (f1\<lparr>f_error := False\<rparr>) block_start)"

section \<open>The bitmap and the uptodate flag\<close>

text \<open>The invariant of the sub-block state record: on a folio that has one, the
  bitmap is full exactly when the folio's uptodate flag is set.\<close>

definition iop_inv :: "inode \<Rightarrow> folio \<Rightarrow> bool" where
  "iop_inv ino f =
     (case f_private f of
        None \<Rightarrow> True
      | Some p \<Rightarrow> bitmap_full (uptodate p) (i_blocks_per_folio ino f) = f_uptodate f)"

lemma iop_inv_cong:
  "f_private g = f_private f \<Longrightarrow> f_uptodate g = f_uptodate f \<Longrightarrow> f_order g = f_order f
     \<Longrightarrow> iop_inv ino g = iop_inv ino f"
  by (cases "f_private f") (simp_all add: iop_inv_def i_blocks_per_folio_def folio_size_def)

lemma iop_inv_pending:
  "f_private g = map_option (\<lambda>p. p\<lparr>read_bytes_pending := r p, write_bytes_pending := w p\<rparr>)
      (f_private f)
     \<Longrightarrow> f_uptodate g = f_uptodate f \<Longrightarrow> f_order g = f_order f
     \<Longrightarrow> iop_inv ino g = iop_inv ino f"
  by (cases "f_private f") (simp_all add: iop_inv_def i_blocks_per_folio_def folio_size_def)

lemma iop_inv_flags [simp]:
  "iop_inv ino (f\<lparr>f_data := d\<rparr>) = iop_inv ino f"
  "iop_inv ino (f\<lparr>f_error := e\<rparr>) = iop_inv ino f"
  "iop_inv ino (f\<lparr>f_dirty := e\<rparr>) = iop_inv ino f"
  "iop_inv ino (f\<lparr>f_locked := e\<rparr>) = iop_inv ino f"
  "iop_inv ino (f\<lparr>f_writeback := e\<rparr>) = iop_inv ino f"
  by (rule iop_inv_cong; simp)+

lemma bitmap_full_set_mono: "bitmap_full bm n \<Longrightarrow> bitmap_full (bitmap_set bm s k) n"
  by (auto simp: bitmap_full_def bitmap_set_def)

text \<open>The bits one call sets, for any offset and length.\<close>

definition range_bits :: "nat \<Rightarrow> size_t \<Rightarrow> size_t \<Rightarrow> nat set" where
  "range_bits bits off len =
     (let first = to_uint (shr off bits);
          lst = to_uint (shr (size_sub (size_add off len) 1) bits)
      in {first ..< first + uint_add (uint_sub lst first) 1})"

lemma iop_set_range_general:
  "f_private f = Some p \<Longrightarrow>
   iomap_iop_set_range_uptodate ino f off len
     = Some (mark_blocks ino f p (range_bits (i_blkbits ino) off len))"
  by (simp add: iomap_iop_set_range_uptodate_def to_iomap_page_def Let_def mark_blocks_def
      bitmap_set_def range_bits_def)

lemma iop_inv_mark_blocks:
  assumes "f_private f = Some p" "iop_inv ino f"
  shows "iop_inv ino (mark_blocks ino f p S)"
proof -
  have inv: "bitmap_full (uptodate p) (i_blocks_per_folio ino f) = f_uptodate f"
    using assms by (simp add: iop_inv_def)
  show ?thesis
  proof (cases "bitmap_full (uptodate p \<union> S) (i_blocks_per_folio ino f)")
    case True
    then show ?thesis
      by (simp add: mark_blocks_def Let_def iop_inv_def i_blocks_per_folio_def folio_size_def)
  next
    case False
    then have "\<not> bitmap_full (uptodate p) (i_blocks_per_folio ino f)"
      using bitmap_full_mono by blast
    then show ?thesis using False inv
      by (simp add: mark_blocks_def Let_def iop_inv_def i_blocks_per_folio_def folio_size_def)
  qed
qed

lemma iop_inv_iop_set_range:
  assumes "iop_inv ino f" "iomap_iop_set_range_uptodate ino f off len = Some f'"
  shows "iop_inv ino f'"
proof -
  obtain p where p: "f_private f = Some p"
    using assms(2) by (cases "f_private f")
      (simp_all add: iomap_iop_set_range_uptodate_def to_iomap_page_def)
  have "f' = mark_blocks ino f p (range_bits (i_blkbits ino) off len)"
    using assms(2) by (simp add: iop_set_range_general [OF p])
  then show ?thesis using iop_inv_mark_blocks [OF p assms(1)] by simp
qed

lemma iop_inv_set_range:
  assumes "iop_inv ino f"
  shows "iop_inv ino (iomap_set_range_uptodate ino f off len)"
proof (cases "f_error f")
  case True
  then show ?thesis using assms by (simp add: iomap_set_range_uptodate_def)
next
  case False
  show ?thesis
  proof (cases "iomap_iop_set_range_uptodate ino f off len")
    case None
    then have "f_private f = None"
      by (cases "f_private f")
        (simp_all add: iomap_iop_set_range_uptodate_def to_iomap_page_def Let_def)
    then show ?thesis using False
      by (simp add: iomap_set_range_uptodate_def iop_inv_def)
  next
    case (Some f')
    then have "f_private f \<noteq> None"
      by (cases "f_private f")
        (simp_all add: iomap_iop_set_range_uptodate_def to_iomap_page_def)
    then have "iomap_set_range_uptodate ino f off len = f'"
      using False Some by (simp add: iomap_set_range_uptodate_def)
    then show ?thesis using iop_inv_iop_set_range [OF assms Some] by simp
  qed
qed

lemma iop_inv_page_create:
  assumes "iop_inv ino f"
  shows "iop_inv ino (snd (iomap_page_create ino f))"
proof (cases "to_iomap_page f \<noteq> None \<or> i_blocks_per_folio ino f \<le> 1")
  case True
  then show ?thesis using assms by (simp add: iomap_page_create_def Let_def)
next
  case False
  then have n: "1 < i_blocks_per_folio ino f" by simp
  then have "\<not> bitmap_full {} (i_blocks_per_folio ino f)"
    by (auto simp: bitmap_full_def)
  moreover have "bitmap_full (bitmap_fill {} (i_blocks_per_folio ino f)) (i_blocks_per_folio ino f)"
    by (simp add: bitmap_full_def bitmap_fill_def)
  ultimately show ?thesis using False
    by (simp add: iomap_page_create_def Let_def iop_inv_def i_blocks_per_folio_def
        folio_size_def)
qed


lemma iop_inv_write_begin_loop:
  "iop_inv ino f \<Longrightarrow>
   iop_inv ino (snd (write_begin_loop read_sync ino unshare srcmap from to block_end f
      block_start))"
proof (induction "nat (block_end - block_start)" arbitrary: f block_start rule: less_induct)
  case less
  obtain b1 poff plen where a:
    "iomap_adjust_read_range ino f block_start (block_end - block_start) = (b1, poff, plen)"
    by (cases "iomap_adjust_read_range ino f block_start (block_end - block_start)")
  obtain status bytes where rs: "read_sync b1 poff plen = (status, bytes)"
    by (cases "read_sync b1 poff plen")
  have mono: "block_start \<le> b1" using a by (rule adjust_read_range_pos_mono)
  have rec: "iop_inv ino (snd (write_begin_loop read_sync ino unshare srcmap from to block_end
      f' (b1 + int plen)))"
    if "iop_inv ino f'" "plen \<noteq> 0" "b1 + int plen < block_end" for f'
  proof (rule less.hyps)
    show "nat (block_end - (b1 + int plen)) < nat (block_end - block_start)"
      using that(2,3) mono by simp
    show "iop_inv ino f'" by (rule that(1))
  qed
  define z where "z = iomap_set_range_uptodate ino
      (zero_user_segments f (to_uint poff) (to_uint from) (to_uint to)
         (to_uint (size_add poff plen))) poff plen"
  define fr where "fr = f\<lparr>f_data := (\<lambda>i. if poff \<le> i \<and> i < poff + plen then bytes (i - poff)
      else f_data f i)\<rparr>"
  define r where "r = iomap_set_range_uptodate ino fr poff plen"
  have "iop_inv ino (zero_user_segments f (to_uint poff) (to_uint from) (to_uint to)
      (to_uint (size_add poff plen)))"
    using less.prems by (simp add: zero_user_segments_def)
  then have iz: "iop_inv ino z" unfolding z_def by (rule iop_inv_set_range)
  have fi: "iop_inv ino fr" using less.prems by (simp add: fr_def)
  then have ir: "iop_inv ino r" unfolding r_def by (rule iop_inv_set_range)
  have u: "write_begin_loop read_sync ino unshare srcmap from to block_end f block_start =
     (if plen = 0 then (0, f)
      else if \<not> unshare \<and> (from \<le> poff \<or> from \<ge> size_add poff plen)
                \<and> (to \<le> poff \<or> to \<ge> size_add poff plen) then
        (if b1 + int plen < block_end
         then write_begin_loop read_sync ino unshare srcmap from to block_end f (b1 + int plen)
         else (0, f))
      else if iomap_block_needs_zeroing ino srcmap b1 then
        (if unshare then (- 5, f)
         else if b1 + int plen < block_end
              then write_begin_loop read_sync ino unshare srcmap from to block_end z
                     (b1 + int plen)
              else (0, z))
      else if status \<noteq> 0 then (status, fr)
      else if b1 + int plen < block_end
           then write_begin_loop read_sync ino unshare srcmap from to block_end r (b1 + int plen)
           else (0, r))"
    by (subst write_begin_loop.simps) (simp add: a rs Let_def z_def fr_def r_def)
  show ?case
  proof (cases "plen = 0")
    case True
    then show ?thesis unfolding u using less.prems by simp
  next
    case nz: False
    show ?thesis
    proof (cases "b1 + int plen < block_end")
      case True
      note rec' = rec [OF _ nz True]
      show ?thesis
        unfolding u using nz True less.prems fi rec' [OF less.prems] rec' [OF iz] rec' [OF ir]
        by (simp only: if_True if_False split: if_split) simp
    next
      case False
      show ?thesis
        unfolding u using nz False less.prems fi iz ir
        by (simp only: if_True if_False split: if_split) simp
    qed
  qed
qed


lemma iop_inv_read_pending [simp]:
  "iop_inv ino (f\<lparr>f_private := map_option (\<lambda>p. p\<lparr>read_bytes_pending := r p\<rparr>) (f_private f)\<rparr>)
     = iop_inv ino f"
  by (cases "f_private f") (simp_all add: iop_inv_def i_blocks_per_folio_def folio_size_def)

lemma iop_inv_write_pending:
  "f_private f = Some p \<Longrightarrow>
   iop_inv ino (f\<lparr>f_private := Some (p\<lparr>write_bytes_pending := w\<rparr>)\<rparr>) = iop_inv ino f"
  by (simp add: iop_inv_def i_blocks_per_folio_def folio_size_def)

lemma iop_inv_finish_folio_read:
  assumes "iop_inv ino f" "error = 0 \<or> \<not> f_uptodate f"
  shows "iop_inv ino (iomap_finish_folio_read ino f off len error)"
proof -
  define f1 where "f1 = (if error \<noteq> 0 then f\<lparr>f_uptodate := False, f_error := True\<rparr>
      else iomap_set_range_uptodate ino f off len)"
  have "iop_inv ino f1"
  proof (cases "error = 0")
    case True
    then show ?thesis using assms(1) by (simp add: f1_def iop_inv_set_range)
  next
    case False
    then have "\<not> f_uptodate f" using assms(2) by simp
    then have "f\<lparr>f_uptodate := False\<rparr> = f" by simp
    then show ?thesis using False assms(1) by (simp add: f1_def)
  qed
  then show ?thesis
    by (cases "to_iomap_page f")
       (simp_all add: iomap_finish_folio_read_def Let_def f1_def [symmetric] unlock_folio_def)
qed

lemma iop_inv_finish_folio_write:
  assumes "iop_inv ino f"
  shows "iop_inv ino (snd (iomap_finish_folio_write ino' f len error))"
proof (cases "f_private f")
  case None
  then show ?thesis
    by (simp add: iomap_finish_folio_write_def Let_def to_iomap_page_def iop_inv_def
        end_folio_writeback_def)
next
  case (Some p)
  have "iop_inv ino (f\<lparr>f_error := True\<rparr>)" using assms by simp
  then show ?thesis using assms Some
    by (simp add: iomap_finish_folio_write_def Let_def to_iomap_page_def
        end_folio_writeback_def iop_inv_write_pending)
qed

lemma iop_inv_write_end:
  "iop_inv ino f \<Longrightarrow> iop_inv ino (snd (uu_iomap_write_end ino pos len copied f))"
  by (simp add: uu_iomap_write_end_def iomap_set_page_dirty_def iop_inv_set_range)

lemma iop_inv_write_begin:
  assumes "iop_inv ino f"
  shows "iop_inv ino (snd (uu_iomap_write_begin read_sync ino pos len unshare f srcmap))"
proof -
  have c: "iop_inv ino (snd (iomap_page_create ino f))"
    using assms by (rule iop_inv_page_create)
  then have "iop_inv ino ((snd (iomap_page_create ino f))\<lparr>f_error := False\<rparr>)" by simp
  then show ?thesis using c
    by (simp add: uu_iomap_write_begin_def Let_def iop_inv_write_begin_loop)
qed

text \<open>
  The operations that reach the tracker keep the invariant. On a folio where the bitmap
  of the sub-block state record is full exactly when the uptodate flag is set (a folio
  without a record counts), the same holds after marking a range valid
  (\<open>iomap_iop_set_range_uptodate\<close>, \<open>iomap_set_range_uptodate\<close>), after a read
  completion without error, after a read completion with an error on a folio whose
  uptodate flag is clear (a read is pending only on blocks that are not valid, so the
  flag is clear when a completion runs), after \<open>__iomap_write_begin\<close>, after
  \<open>__iomap_write_end\<close> and after a write-back completion (\<open>iomap_finish_folio_write\<close>).
\<close>

lemma iop_inv_preserved:
  assumes "iop_inv ino f"
  shows "(case iomap_iop_set_range_uptodate ino f off len of
            None \<Rightarrow> True | Some f' \<Rightarrow> iop_inv ino f') \<and>
         iop_inv ino (iomap_set_range_uptodate ino f off len) \<and>
         (error = 0 \<or> \<not> f_uptodate f \<longrightarrow>
            iop_inv ino (iomap_finish_folio_read ino f off len error)) \<and>
         iop_inv ino (snd (uu_iomap_write_begin read_sync ino pos wlen unshare f srcmap)) \<and>
         iop_inv ino (snd (uu_iomap_write_end ino pos wlen copied f)) \<and>
         iop_inv ino (snd (iomap_finish_folio_write ino f wlen error))"
proof (intro conjI impI)
  show "case iomap_iop_set_range_uptodate ino f off len of
            None \<Rightarrow> True | Some f' \<Rightarrow> iop_inv ino f'"
    using iop_inv_iop_set_range [OF assms] by (simp split: option.splits)
  show "iop_inv ino (iomap_set_range_uptodate ino f off len)"
    using assms by (rule iop_inv_set_range)
  show "iop_inv ino (iomap_finish_folio_read ino f off len error)"
    if "error = 0 \<or> \<not> f_uptodate f"
    using assms that by (rule iop_inv_finish_folio_read)
  show "iop_inv ino (snd (uu_iomap_write_begin read_sync ino pos wlen unshare f srcmap))"
    using assms by (rule iop_inv_write_begin)
  show "iop_inv ino (snd (uu_iomap_write_end ino pos wlen copied f))"
    using assms by (rule iop_inv_write_end)
  show "iop_inv ino (snd (iomap_finish_folio_write ino f wlen error))"
    using assms by (rule iop_inv_finish_folio_write)
qed

lemma bitmap_empty_not_full: "0 < n \<Longrightarrow> \<not> bitmap_full {} n"
  by (auto simp: bitmap_full_def)

lemma ex_folio_inv: "iop_inv ex_inode ex_folio"
proof -
  have "i_blocks_per_folio ex_inode ex_folio = 4"
    by (simp add: i_blocks_per_folio_def folio_size_eval ex_folio_simps ex_inode_simps shr_def
        to_uint_def)
  moreover have "\<not> bitmap_full {} 4" by (rule bitmap_empty_not_full) simp
  ultimately show ?thesis by (simp add: iop_inv_def ex_folio_simps ex_iop_simps)
qed

lemma iop_inv_preserved_example:
  "iop_inv ex_inode ex_folio \<and>
   iop_inv ex_inode (iomap_set_range_uptodate ex_inode ex_folio 0 1024) \<and>
   iop_inv ex_inode (iomap_finish_folio_read ex_inode ex_folio 0 1024 0) \<and>
   iop_inv ex_inode (iomap_finish_folio_read ex_inode ex_folio 0 1024 (- 5)) \<and>
   iop_inv ex_inode (snd (uu_iomap_write_end ex_inode 0 1024 1024 ex_folio)) \<and>
   iop_inv ex_inode (snd (iomap_finish_folio_write ex_inode ex_folio 1024 (- 5)))"
proof -
  have u: "\<not> f_uptodate ex_folio" by (simp add: ex_folio_simps)
  show ?thesis
    using ex_folio_inv u
      iop_inv_preserved [OF ex_folio_inv, of 0 1024 0 _ 0 1024 _ _ 1024]
      iop_inv_preserved [OF ex_folio_inv, of 0 1024 "- 5" _ 0 1024 _ _ 1024]
    by simp
qed

section \<open>The read actor\<close>

text \<open>\<open>iomap_read_inline_data\<close> copies the inline payload into the first page and
  zeroes the rest of it. Its three \<open>BUG_ON\<close> checks are faults.\<close>

definition iomap_read_inline_data :: "inode \<Rightarrow> folio \<Rightarrow> iomap \<Rightarrow> fault + folio" where
  "iomap_read_inline_data ino f im =
     (let sz = to_size_t (i_size ino)
      in if f_uptodate f then Inr f
         else if f_index f \<noteq> 0 then Inl BUG
         else if f_order f \<noteq> 0 then Inl BUG
         else if sz > size_sub PAGE_SIZE (im_inline_page_offset im) then Inl BUG
         else Inr (f\<lparr>f_data := (\<lambda>i. if i < sz then im_inline_data im i
                                     else if i < PAGE_SIZE then 0 else f_data f i),
                     f_uptodate := True\<rparr>))"

text \<open>Modelled from the spec: the I/O submission layer (section 6) lives outside the
  source files. A request has a starting sector, a byte count, a bounded sequence of
  memory regions (folio index, offset, length) and the readahead mark. A region is merged
  into the last one when it continues it in the same folio; a request is full when it has
  used its capacity or its byte count would pass 32 bits; a region is appended unless it
  cannot be merged and the request is full. Sectors have 512 bytes.\<close>

record bio =
  bi_sector :: int
  bi_size :: nat
  bi_vecs :: "(nat \<times> size_t \<times> size_t) list"
  bi_max_vecs :: nat
  bi_rahead :: bool

definition BIO_MAX_PAGES :: nat where
  "BIO_MAX_PAGES = 256"

definition bio_end_sector :: "bio \<Rightarrow> int" where
  "bio_end_sector b = bi_sector b + int (bi_size b div 512)"

definition iomap_sector :: "iomap \<Rightarrow> loff_t \<Rightarrow> int" where
  "iomap_sector im pos = (im_addr im + pos - im_offset im) div 512"

definition bio_try_merge_page :: "bio \<Rightarrow> nat \<Rightarrow> size_t \<Rightarrow> size_t \<Rightarrow> bio option" where
  "bio_try_merge_page b idx len off =
     (case rev (bi_vecs b) of
        [] \<Rightarrow> None
      | (i, o', l) # earlier \<Rightarrow>
          if i = idx \<and> o' + l = off \<and> bi_size b + len < 2 ^ 32
          then Some (b\<lparr>bi_vecs := rev ((i, o', l + len) # earlier), bi_size := bi_size b + len\<rparr>)
          else None)"

definition bio_full :: "bio \<Rightarrow> size_t \<Rightarrow> bool" where
  "bio_full b len = (length (bi_vecs b) \<ge> bi_max_vecs b \<or> bi_size b + len \<ge> 2 ^ 32)"

definition bio_add_page :: "bio \<Rightarrow> nat \<Rightarrow> size_t \<Rightarrow> size_t \<Rightarrow> bio" where
  "bio_add_page b idx len off =
     (case bio_try_merge_page b idx len off of
        Some b' \<Rightarrow> b'
      | None \<Rightarrow>
          if bio_full b len then b
          else b\<lparr>bi_vecs := bi_vecs b @ [(idx, off, len)], bi_size := bi_size b + len\<rparr>)"

text \<open>\<open>struct iomap_readpage_ctx\<close>, with the folio it points to held in it, and beside
  it the requests submitted so far. \<open>rac\<close> tells whether the context belongs to a
  readahead.\<close>

record iomap_readpage_ctx =
  cur_folio :: folio
  cur_folio_in_bio :: bool
  ctx_bio :: "bio option"
  rac :: bool
  submitted :: "bio list"

text \<open>\<open>iomap_readpage_actor\<close>. The first request allocation may fail: \<open>alloc_ok\<close> tells
  whether it succeeds; the second one, for a single page, is used without a check in the
  source; the \<open>WARN_ON_ONCE(pos)\<close> of the Inline branch changes nothing. The value
  returned, \<open>pos - orig_pos + plen\<close>, is computed in unsigned 64-bit
  arithmetic (\<open>plen\<close> is a \<open>size_t\<close>) and converted to \<open>loff_t\<close>. The offset and the
  length are cut to \<open>unsigned\<close> where they are passed to \<open>zero_user\<close> and to the
  submission layer, and to \<open>int\<close> where the length is added to the read-pending
  counter; \<open>nr_vecs\<close> is an \<open>int\<close>.\<close>

definition iomap_readpage_actor ::
    "bool \<Rightarrow> inode \<Rightarrow> loff_t \<Rightarrow> loff_t \<Rightarrow> iomap_readpage_ctx \<Rightarrow> iomap
      \<Rightarrow> fault + (loff_t \<times> iomap_readpage_ctx)" where
  "iomap_readpage_actor alloc_ok ino pos len ctx im =
     (let folio = cur_folio ctx;
          (iop, folio1) = iomap_page_create ino folio;
          orig_pos = pos
      in if im_type im = IOMAP_INLINE then
           (case iomap_read_inline_data ino folio1 im of
              Inl b \<Rightarrow> Inl b
            | Inr f' \<Rightarrow> Inr (int PAGE_SIZE, ctx\<lparr>cur_folio := f'\<rparr>))
         else
           (case iomap_adjust_read_range ino folio1 pos len of
              (pos1, poff, plen) \<Rightarrow>
                let ret = to_loff_t (size_add (to_size_t (pos1 - orig_pos)) plen)
                in if plen = 0 then Inr (ret, ctx\<lparr>cur_folio := folio1\<rparr>)
                   else if iomap_block_needs_zeroing ino im pos1 then
                     Inr (ret,
                          ctx\<lparr>cur_folio := iomap_set_range_uptodate ino
                                 (zero_user folio1 (to_uint poff) (to_uint plen)) poff plen\<rparr>)
                   else
                     let folio2 =
                           (case iop of
                              None \<Rightarrow> folio1
                            | Some p \<Rightarrow>
                                folio1\<lparr>f_private :=
                                  Some (p\<lparr>read_bytes_pending :=
                                            atomic_add (int plen) (read_bytes_pending p)\<rparr>)\<rparr>);
                         ctx1 = ctx\<lparr>cur_folio := folio2, cur_folio_in_bio := True\<rparr>;
                         sector = iomap_sector im pos1;
                         idx = f_index folio2;
                         (merged, is_contig, bio1) =
                           (case ctx_bio ctx1 of
                              None \<Rightarrow> (False, False, None)
                            | Some b \<Rightarrow>
                                if bio_end_sector b = sector then
                                  (case bio_try_merge_page b idx (to_uint plen) (to_uint poff) of
                                     Some b' \<Rightarrow> (True, False, Some b')
                                   | None \<Rightarrow> (False, True, Some b))
                                else (False, False, Some b))
                     in if merged then Inr (ret, ctx1\<lparr>ctx_bio := bio1\<rparr>)
                        else
                          let fresh = (if is_contig
                                       then (case bio1 of
                                               None \<Rightarrow> True
                                             | Some b \<Rightarrow> bio_full b (to_uint plen))
                                       else True);
                              nr_vecs = to_c_int (int (shr (to_size_t (len + int PAGE_SIZE - 1))
                                                         PAGE_SHIFT));
                              new = \<lparr>bi_sector = sector, bi_size = 0, bi_vecs = [],
                                     bi_max_vecs =
                                       (if alloc_ok
                                        then to_uint (to_size_t (min (int BIO_MAX_PAGES) nr_vecs))
                                        else 1),
                                     bi_rahead = rac ctx1\<rparr>;
                              sub = (if fresh
                                     then submitted ctx1
                                            @ (case bio1 of None \<Rightarrow> [] | Some b \<Rightarrow> [b])
                                     else submitted ctx1);
                              bio2 = (if fresh then Some new else bio1)
                          in Inr (ret,
                                  ctx1\<lparr>ctx_bio := map_option
                                          (\<lambda>b. bio_add_page b idx (to_uint plen) (to_uint poff)) bio2,
                                       submitted := sub\<rparr>)))"

text \<open>\<open>iomap_readpage\<close>. The extent iterator \<open>iomap_apply\<close> lives outside the source
  files: \<open>iter ctx pos len\<close> stands for its call with the read actor, and gives the value
  it returns and the context as it leaves it. The loop goes on while the iterator
  returns a positive count; \<open>None\<close> is a loop that never ends.\<close>

partial_function (option) readpage_loop ::
    "(iomap_readpage_ctx \<Rightarrow> loff_t \<Rightarrow> loff_t \<Rightarrow> loff_t \<times> iomap_readpage_ctx)
      \<Rightarrow> iomap_readpage_ctx \<Rightarrow> size_t \<Rightarrow> iomap_readpage_ctx option" where
  "readpage_loop iter ctx poff =
     (if poff < folio_size (cur_folio ctx) then
        (case iter ctx (folio_offset (cur_folio ctx) + int poff)
                (int (size_sub (folio_size (cur_folio ctx)) poff)) of
           (ret, ctx') \<Rightarrow>
             if ret \<le> 0 then Some (ctx'\<lparr>cur_folio := (cur_folio ctx')\<lparr>f_error := True\<rparr>\<rparr>)
             else readpage_loop iter ctx' (to_size_t (int poff + ret)))
      else Some ctx)"

definition iomap_readpage ::
    "(iomap_readpage_ctx \<Rightarrow> loff_t \<Rightarrow> loff_t \<Rightarrow> loff_t \<times> iomap_readpage_ctx)
      \<Rightarrow> folio \<Rightarrow> (int \<times> iomap_readpage_ctx) option" where
  "iomap_readpage iter folio =
     (let ctx = \<lparr>cur_folio = folio, cur_folio_in_bio = False, ctx_bio = None, rac = False,
                 submitted = []\<rparr>
      in case readpage_loop iter ctx 0 of
           None \<Rightarrow> None
         | Some ctx' \<Rightarrow>
             Some (0,
                   case ctx_bio ctx' of
                     Some b \<Rightarrow> ctx'\<lparr>submitted := submitted ctx' @ [b]\<rparr>
                   | None \<Rightarrow> ctx'\<lparr>cur_folio := unlock_folio (cur_folio ctx')\<rparr>))"

text \<open>The loop meets a call of the iterator that fails, that is, returns a value that
  is not positive.\<close>

inductive loop_fails ::
    "(iomap_readpage_ctx \<Rightarrow> loff_t \<Rightarrow> loff_t \<Rightarrow> loff_t \<times> iomap_readpage_ctx)
      \<Rightarrow> iomap_readpage_ctx \<Rightarrow> size_t \<Rightarrow> bool" where
  fails_now:
    "poff < folio_size (cur_folio ctx) \<Longrightarrow>
     iter ctx (folio_offset (cur_folio ctx) + int poff)
       (int (size_sub (folio_size (cur_folio ctx)) poff)) = (ret, ctx') \<Longrightarrow>
     ret \<le> 0 \<Longrightarrow> loop_fails iter ctx poff"
| fails_later:
    "poff < folio_size (cur_folio ctx) \<Longrightarrow>
     iter ctx (folio_offset (cur_folio ctx) + int poff)
       (int (size_sub (folio_size (cur_folio ctx)) poff)) = (ret, ctx') \<Longrightarrow>
     0 < ret \<Longrightarrow> loop_fails iter ctx' (to_size_t (int poff + ret)) \<Longrightarrow>
     loop_fails iter ctx poff"

lemma loop_fails_error:
  "loop_fails iter ctx poff \<Longrightarrow> readpage_loop iter ctx poff = Some c
     \<Longrightarrow> f_error (cur_folio c)"
proof (induction rule: loop_fails.induct)
  case (fails_now poff ctx iter ret ctx')
  then show ?case by (subst (asm) readpage_loop.simps) auto
next
  case (fails_later poff ctx iter ret ctx')
  from fails_later.prems fails_later.hyps(1,2,3)
  have "readpage_loop iter ctx' (to_size_t (int poff + ret)) = Some c"
    by (subst (asm) readpage_loop.simps) simp
  then show ?case by (rule fails_later.IH)
qed

text \<open>The iterator leaves the geometry of the folio alone and returns a 64-bit signed
  value.\<close>

definition iter_ok ::
    "(iomap_readpage_ctx \<Rightarrow> loff_t \<Rightarrow> loff_t \<Rightarrow> loff_t \<times> iomap_readpage_ctx) \<Rightarrow> bool" where
  "iter_ok iter =
     (\<forall>ctx pos len. f_order (cur_folio (snd (iter ctx pos len))) = f_order (cur_folio ctx)
                    \<and> fst (iter ctx pos len) < 2 ^ 63)"

lemma readpage_loop_returns:
  assumes "iter_ok iter" "folio_size (cur_folio ctx) < 2 ^ 32"
  shows "\<exists>c. readpage_loop iter ctx poff = Some c"
  using assms(2)
proof (induction "folio_size (cur_folio ctx) - poff" arbitrary: ctx poff rule: less_induct)
  case less
  show ?case
  proof (cases "poff < folio_size (cur_folio ctx)")
    case False
    then show ?thesis by (subst readpage_loop.simps) simp
  next
    case True
    obtain ret ctx' where a: "iter ctx (folio_offset (cur_folio ctx) + int poff)
       (int (size_sub (folio_size (cur_folio ctx)) poff)) = (ret, ctx')"
      by (cases "iter ctx (folio_offset (cur_folio ctx) + int poff)
       (int (size_sub (folio_size (cur_folio ctx)) poff))")
    have o: "f_order (cur_folio ctx') = f_order (cur_folio ctx)" and r: "ret < 2 ^ 63"
      using assms(1) a unfolding iter_ok_def by (metis snd_conv, metis fst_conv)
    have fs: "folio_size (cur_folio ctx') = folio_size (cur_folio ctx)"
      by (simp add: folio_size_def o)
    show ?thesis
    proof (cases "ret \<le> 0")
      case True
      then show ?thesis using \<open>poff < folio_size (cur_folio ctx)\<close> a
        by (subst readpage_loop.simps) simp
    next
      case False
      then have pos: "0 < ret" by simp
      have "int poff + ret < 2 ^ 64" using r True less.prems by simp
      then have t: "to_size_t (int poff + ret) = nat (int poff + ret)"
        using pos by (intro to_size_t_simple) simp_all
      have "\<exists>c. readpage_loop iter ctx' (to_size_t (int poff + ret)) = Some c"
      proof (rule less.hyps)
        show "folio_size (cur_folio ctx') - to_size_t (int poff + ret)
            < folio_size (cur_folio ctx) - poff"
          unfolding fs t using pos True by simp
        show "folio_size (cur_folio ctx') < 2 ^ 32" unfolding fs by (rule less.prems)
      qed
      then show ?thesis using True a False
        by (subst readpage_loop.simps) simp
    qed
  qed
qed


text \<open>
  C9. \<open>iomap_readpage\<close> never returns anything but 0. With an iterator that leaves the
  geometry of the folio alone and returns 64-bit signed values, on a folio below
  \<open>2 ^ 32\<close> bytes, it does return; and when a call of the iterator fails, returning a
  value that is not positive, the folio it leaves has its error flag set, while the value
  returned is still 0.
\<close>

theorem readpage_returns_zero:
  "(\<forall>r c. iomap_readpage iter f = Some (r, c) \<longrightarrow> r = 0) \<and>
   (iter_ok iter \<and> folio_size f < 2 ^ 32 \<longrightarrow>
      (\<exists>c. iomap_readpage iter f = Some (0, c) \<and>
           (loop_fails iter \<lparr>cur_folio = f, cur_folio_in_bio = False, ctx_bio = None,
                              rac = False, submitted = []\<rparr> 0
              \<longrightarrow> f_error (cur_folio c))))"
proof (intro conjI allI impI)
  fix r c assume "iomap_readpage iter f = Some (r, c)"
  then show "r = 0"
    by (auto simp: iomap_readpage_def Let_def split: option.splits)
next
  let ?ctx = "\<lparr>cur_folio = f, cur_folio_in_bio = False, ctx_bio = None, rac = False,
      submitted = []\<rparr>"
  assume h: "iter_ok iter \<and> folio_size f < 2 ^ 32"
  then have "folio_size (cur_folio ?ctx) < 2 ^ 32" by simp
  with h obtain c where c: "readpage_loop iter ?ctx 0 = Some c"
    using readpage_loop_returns by blast
  define c' where "c' = (case ctx_bio c of
      Some b \<Rightarrow> c\<lparr>submitted := submitted c @ [b]\<rparr>
    | None \<Rightarrow> c\<lparr>cur_folio := unlock_folio (cur_folio c)\<rparr>)"
  have r: "iomap_readpage iter f = Some (0, c')"
    by (simp add: iomap_readpage_def Let_def c c'_def)
  have e: "f_error (cur_folio c') = f_error (cur_folio c)"
    by (cases "ctx_bio c") (simp_all add: c'_def unlock_folio_def)
  have "loop_fails iter ?ctx 0 \<longrightarrow> f_error (cur_folio c')"
    unfolding e using c by (auto intro: loop_fails_error)
  with r show "\<exists>c. iomap_readpage iter f = Some (0, c) \<and>
           (loop_fails iter ?ctx 0 \<longrightarrow> f_error (cur_folio c))"
    by blast
qed

theorem readpage_returns_zero_witness:
  "iomap_readpage (\<lambda>ctx pos len. (- 5, ctx)) ex_folio \<noteq> None \<and>
   fst (the (iomap_readpage (\<lambda>ctx pos len. (- 5, ctx)) ex_folio)) = 0 \<and>
   f_error (cur_folio (snd (the (iomap_readpage (\<lambda>ctx pos len. (- 5, ctx)) ex_folio))))"
proof -
  let ?it = "\<lambda>(ctx :: iomap_readpage_ctx) (pos :: loff_t) (len :: loff_t). (- 5 :: loff_t, ctx)"
  let ?ctx = "\<lparr>cur_folio = ex_folio, cur_folio_in_bio = False, ctx_bio = None, rac = False,
      submitted = []\<rparr>"
  have ok: "iter_ok ?it" by (simp add: iter_ok_def)
  have "(0::nat) < folio_size (cur_folio ?ctx)" by simp
  then have lf: "loop_fails ?it ?ctx 0"
    by (rule fails_now [where ret = "- 5" and ctx' = ?ctx]) simp_all
  have "folio_size ex_folio < 2 ^ 32" by simp
  with ok lf readpage_returns_zero [of ?it ex_folio]
  obtain c where "iomap_readpage ?it ex_folio = Some (0, c)" "f_error (cur_folio c)"
    by blast
  then show ?thesis by simp
qed


section \<open>The read actor on an Inline extent\<close>

text \<open>\<open>iomap_page_release\<close> detaches the record from the folio. Each of its three
  \<open>WARN_ON_ONCE\<close> checks that fires is reported: a read still pending, a write still
  pending, and a bitmap whose fullness disagrees with the uptodate flag of the folio.\<close>

datatype warning = WARN_READ_PENDING | WARN_WRITE_PENDING | WARN_UPTODATE_MISMATCH

definition iomap_page_release :: "inode \<Rightarrow> folio \<Rightarrow> warning list \<times> folio" where
  "iomap_page_release ino f =
     (let iop = f_private f;
          f' = f\<lparr>f_private := None\<rparr>;
          nr_blocks = i_blocks_per_folio ino f'
      in case iop of
           None \<Rightarrow> ([], f')
         | Some p \<Rightarrow>
             ((if read_bytes_pending p \<noteq> 0 then [WARN_READ_PENDING] else [])
              @ (if write_bytes_pending p \<noteq> 0 then [WARN_WRITE_PENDING] else [])
              @ (if bitmap_full (uptodate p) nr_blocks \<noteq> f_uptodate f'
                 then [WARN_UPTODATE_MISMATCH] else []),
              f'))"

text \<open>The state \<open>iomap_readpage\<close> starts from, on the folio \<open>ex_folio\<close>, and a folio as
  the page cache hands it to a first read: locked, not uptodate, without a record.\<close>

definition ex_ctx :: iomap_readpage_ctx where
  "ex_ctx = \<lparr>cur_folio = ex_folio, cur_folio_in_bio = False, ctx_bio = None, rac = False,
             submitted = []\<rparr>"

definition ex_folio_fresh :: folio where
  "ex_folio_fresh = ex_folio\<lparr>f_private := None\<rparr>"

lemma ex_page_create:
  "iomap_page_create ino (ex_folio\<lparr>f_error := e\<rparr>) = (Some ex_iop, ex_folio\<lparr>f_error := e\<rparr>)"
  by (simp add: iomap_page_create_def Let_def to_iomap_page_def ex_folio_simps)

text \<open>The read of an Inline extent into \<open>ex_folio\<close>, for a file of 100 bytes whose
  payload is made of bytes 5.\<close>

lemma readpage_actor_example_inline:
  "iomap_readpage_actor True (ex_inode\<lparr>i_size := 100\<rparr>) 0 4096 ex_ctx
       (ex_iomap\<lparr>im_type := IOMAP_INLINE\<rparr>)
     = Inr (4096, ex_ctx\<lparr>cur_folio := ex_folio\<lparr>f_data := (\<lambda>i. if i < 100 then 5
                                                            else if i < 4096 then 0 else 7),
                                                 f_uptodate := True\<rparr>\<rparr>)"
  using ex_page_create [of "ex_inode\<lparr>i_size := 100\<rparr>" False]
  by (simp add: iomap_readpage_actor_def Let_def iomap_read_inline_data_def ex_ctx_def
      ex_folio_def ex_iomap_def to_size_t_def size_sub_def PAGE_SIZE_def PAGE_SHIFT_def
      cong: if_cong)

lemma ex_fresh_blocks:
  "f_order g = 0 \<Longrightarrow> i_blocks_per_folio (ex_inode\<lparr>i_size := 100\<rparr>) g = 4"
  by (simp add: i_blocks_per_folio_def folio_size_eval ex_inode_simps shr_def to_uint_def)

lemma readpage_actor_example_inline_fresh:
  "iomap_readpage_actor True (ex_inode\<lparr>i_size := 100\<rparr>) 0 4096
       (ex_ctx\<lparr>cur_folio := ex_folio_fresh\<rparr>) (ex_iomap\<lparr>im_type := IOMAP_INLINE\<rparr>)
     = Inr (4096, ex_ctx\<lparr>cur_folio := ex_folio\<lparr>f_data := (\<lambda>i. if i < 100 then 5
                                                            else if i < 4096 then 0 else 7),
                                                 f_uptodate := True\<rparr>\<rparr>)"
proof -
  let ?ino = "ex_inode\<lparr>i_size := 100\<rparr>"
  have pc: "iomap_page_create ?ino ex_folio_fresh = (Some ex_iop, ex_folio)"
    using ex_fresh_blocks [of ex_folio_fresh]
    by (simp add: iomap_page_create_def Let_def to_iomap_page_def ex_folio_fresh_def
        ex_folio_def ex_iop_def)
  have rd: "iomap_read_inline_data ?ino ex_folio (ex_iomap\<lparr>im_type := IOMAP_INLINE\<rparr>)
      = Inr (ex_folio\<lparr>f_data := (\<lambda>i. if i < 100 then 5 else if i < 4096 then 0 else 7),
                      f_uptodate := True\<rparr>)"
    by (simp add: iomap_read_inline_data_def Let_def ex_folio_def ex_iomap_def to_size_t_def
        size_sub_def PAGE_SIZE_def PAGE_SHIFT_def cong: if_cong)
  show ?thesis
    by (simp add: iomap_readpage_actor_def Let_def pc rd ex_ctx_def PAGE_SIZE_def
        PAGE_SHIFT_def)
qed

text \<open>
  C1. The equivalence between a full bitmap and the uptodate flag is what
  \<open>iomap_page_release\<close> asserts, and the read actor breaks it on an Inline extent. The
  file has 100 bytes, kept inline; blocks have 1024 bytes, so the folio of 4096 bytes has
  four. The equivalence holds on the folio as it comes to a first read, without a
  record, and on the same folio with a record whose bitmap is empty. On the first the
  actor attaches that record (\<open>iomap_page_create\<close>); on both,
  \<open>iomap_read_inline_data\<close> copies the payload and sets the uptodate flag without
  setting a bit: the folio the actor leaves has the flag set and an empty bitmap over
  four blocks, and releasing it fires the assertion.
\<close>

theorem inline_read_breaks_invariant:
  "iop_inv (ex_inode\<lparr>i_size := 100\<rparr>) ex_folio_fresh \<and>
   iop_inv (ex_inode\<lparr>i_size := 100\<rparr>) ex_folio \<and>
   iomap_readpage_actor True (ex_inode\<lparr>i_size := 100\<rparr>) 0 4096 ex_ctx
       (ex_iomap\<lparr>im_type := IOMAP_INLINE\<rparr>)
     = Inr (4096, ex_ctx\<lparr>cur_folio :=
              ex_folio\<lparr>f_data := (\<lambda>i. if i < 100 then 5 else if i < 4096 then 0 else 7),
                       f_uptodate := True\<rparr>\<rparr>) \<and>
   iomap_readpage_actor True (ex_inode\<lparr>i_size := 100\<rparr>) 0 4096
       (ex_ctx\<lparr>cur_folio := ex_folio_fresh\<rparr>) (ex_iomap\<lparr>im_type := IOMAP_INLINE\<rparr>)
     = Inr (4096, ex_ctx\<lparr>cur_folio :=
              ex_folio\<lparr>f_data := (\<lambda>i. if i < 100 then 5 else if i < 4096 then 0 else 7),
                       f_uptodate := True\<rparr>\<rparr>) \<and>
   f_uptodate (ex_folio\<lparr>f_data := (\<lambda>i. if i < 100 then 5 else if i < 4096 then 0 else 7),
                         f_uptodate := True\<rparr>) \<and>
   map_option uptodate
       (f_private (ex_folio\<lparr>f_data := (\<lambda>i. if i < 100 then 5 else if i < 4096 then 0 else 7),
                             f_uptodate := True\<rparr>)) = Some {} \<and>
   i_blocks_per_folio (ex_inode\<lparr>i_size := 100\<rparr>)
       (ex_folio\<lparr>f_data := (\<lambda>i. if i < 100 then 5 else if i < 4096 then 0 else 7),
                 f_uptodate := True\<rparr>) = 4 \<and>
   \<not> iop_inv (ex_inode\<lparr>i_size := 100\<rparr>)
       (ex_folio\<lparr>f_data := (\<lambda>i. if i < 100 then 5 else if i < 4096 then 0 else 7),
                 f_uptodate := True\<rparr>) \<and>
   fst (iomap_page_release (ex_inode\<lparr>i_size := 100\<rparr>)
       (ex_folio\<lparr>f_data := (\<lambda>i. if i < 100 then 5 else if i < 4096 then 0 else 7),
                 f_uptodate := True\<rparr>)) = [WARN_UPTODATE_MISMATCH]"
proof -
  let ?ino = "ex_inode\<lparr>i_size := 100\<rparr>"
  let ?F = "ex_folio\<lparr>f_data := (\<lambda>i. if i < 100 then 5 else if i < 4096 then 0 else 7),
                     f_uptodate := True\<rparr>"
  note n = ex_fresh_blocks
  have nf: "\<not> bitmap_full {} 4" by (rule bitmap_empty_not_full) simp
  have 1: "iop_inv ?ino ex_folio_fresh"
    by (simp add: iop_inv_def ex_folio_fresh_def)
  have "i_blocks_per_folio ?ino ex_folio = 4" by (rule n) (simp add: ex_folio_simps)
  then have 0: "iop_inv ?ino ex_folio"
    using nf by (simp add: iop_inv_def ex_folio_simps ex_iop_simps)
  note 2 = readpage_actor_example_inline_fresh
  have 3: "f_uptodate ?F" by simp
  have 4: "map_option uptodate (f_private ?F) = Some {}"
    by (simp add: ex_folio_simps ex_iop_simps)
  have 5: "i_blocks_per_folio ?ino ?F = 4" by (rule n) (simp add: ex_folio_simps)
  have 6: "\<not> iop_inv ?ino ?F"
    using nf by (simp add: iop_inv_def 5 ex_folio_simps ex_iop_simps)
  have "i_blocks_per_folio ?ino (?F\<lparr>f_private := None\<rparr>) = 4"
    by (rule n) (simp add: ex_folio_simps)
  then have 7: "fst (iomap_page_release ?ino ?F) = [WARN_UPTODATE_MISMATCH]"
    using nf by (simp add: iomap_page_release_def Let_def ex_folio_simps ex_iop_simps)
  from 1 0 readpage_actor_example_inline 2 3 4 5 6 7 show ?thesis by (intro conjI)
qed

text \<open>The same through \<open>iomap_readpage\<close>, with an extent iterator for a file kept
  inline: each call resolves the range to the Inline extent and runs the read actor on it
  (a \<open>BUG\<close> of the actor does not return; the iterator is total with an error code
  there). The folio comes back unlocked, with the flag set and the bitmap empty.\<close>

definition ex_inline_iter ::
    "iomap_readpage_ctx \<Rightarrow> loff_t \<Rightarrow> loff_t \<Rightarrow> loff_t \<times> iomap_readpage_ctx" where
  "ex_inline_iter ctx pos len =
     (case iomap_readpage_actor True (ex_inode\<lparr>i_size := 100\<rparr>) pos len ctx
             (ex_iomap\<lparr>im_type := IOMAP_INLINE\<rparr>) of
        Inr r \<Rightarrow> r
      | Inl b \<Rightarrow> (- 5, ctx))"

lemma readpage_example_inline:
  "iomap_readpage ex_inline_iter ex_folio_fresh
     = Some (0, ex_ctx\<lparr>cur_folio :=
                ex_folio\<lparr>f_data := (\<lambda>i. if i < 100 then 5 else if i < 4096 then 0 else 7),
                         f_uptodate := True, f_locked := False\<rparr>\<rparr>) \<and>
   \<not> iop_inv (ex_inode\<lparr>i_size := 100\<rparr>)
       (ex_folio\<lparr>f_data := (\<lambda>i. if i < 100 then 5 else if i < 4096 then 0 else 7),
                 f_uptodate := True, f_locked := False\<rparr>)"
proof -
  let ?ino = "ex_inode\<lparr>i_size := 100\<rparr>"
  let ?F = "ex_folio\<lparr>f_data := (\<lambda>i. if i < 100 then 5 else if i < 4096 then 0 else 7),
                     f_uptodate := True\<rparr>"
  let ?c0 = "\<lparr>cur_folio = ex_folio_fresh, cur_folio_in_bio = False, ctx_bio = None,
      rac = False, submitted = []\<rparr>"
  have c0: "?c0 = ex_ctx\<lparr>cur_folio := ex_folio_fresh\<rparr>" by (simp add: ex_ctx_def)
  have fs: "folio_size ex_folio_fresh = 4096" "folio_size ?F = 4096"
    by (simp_all add: folio_size_eval ex_folio_fresh_def ex_folio_simps)
  have fo: "folio_offset ex_folio_fresh = 0"
    by (simp add: folio_offset_def ex_folio_fresh_def ex_folio_simps)
  have it: "ex_inline_iter ?c0 0 4096 = (4096, ex_ctx\<lparr>cur_folio := ?F\<rparr>)"
    unfolding c0 by (simp add: ex_inline_iter_def readpage_actor_example_inline_fresh)
  have s: "size_sub 4096 0 = 4096" "to_size_t 4096 = 4096"
    by (simp_all add: size_sub_def to_size_t_def)
  have l2: "readpage_loop ex_inline_iter (ex_ctx\<lparr>cur_folio := ?F\<rparr>) 4096
      = Some (ex_ctx\<lparr>cur_folio := ?F\<rparr>)"
    by (subst readpage_loop.simps) (simp add: fs)
  have l1: "readpage_loop ex_inline_iter ?c0 0 = Some (ex_ctx\<lparr>cur_folio := ?F\<rparr>)"
    by (subst readpage_loop.simps) (simp add: fs fo it s l2)
  have 1: "iomap_readpage ex_inline_iter ex_folio_fresh
      = Some (0, ex_ctx\<lparr>cur_folio := ?F\<lparr>f_locked := False\<rparr>\<rparr>)"
    by (simp add: iomap_readpage_def Let_def l1 unlock_folio_def ex_ctx_def)
  have "i_blocks_per_folio ?ino (?F\<lparr>f_locked := False\<rparr>) = 4"
    by (simp add: i_blocks_per_folio_def folio_size_eval ex_inode_simps ex_folio_simps shr_def
        to_uint_def)
  moreover have "\<not> bitmap_full {} 4" by (rule bitmap_empty_not_full) simp
  ultimately have 2: "\<not> iop_inv ?ino (?F\<lparr>f_locked := False\<rparr>)"
    by (simp add: iop_inv_def ex_folio_simps ex_iop_simps)
  from 1 2 show ?thesis by simp
qed

section \<open>Extents that are zero-filled instead of read\<close>








text \<open>A request that is not block-aligned, 924 bytes at position 100 with block 0 valid:
  the needed range wraps (\<open>adjust_example_unaligned\<close>), and the value returned is the
  unsigned 64-bit sum, 924, converted to \<open>loff_t\<close>. The range cut to 32 bits is empty, so
  that no byte is zeroed and no block is marked.\<close>

lemma readpage_actor_example_unaligned:
  "iomap_readpage_actor True (ex_inode\<lparr>i_size := 1000\<rparr>) 100 924
       (ex_ctx\<lparr>cur_folio := ex_folio\<lparr>f_private := Some (ex_iop\<lparr>uptodate := {0}\<rparr>)\<rparr>\<rparr>)
       (ex_iomap\<lparr>im_type := IOMAP_HOLE\<rparr>)
     = Inr (924, ex_ctx\<lparr>cur_folio := ex_folio\<lparr>f_private := Some (ex_iop\<lparr>uptodate := {0}\<rparr>)\<rparr>\<rparr>)"
proof -
  let ?f = "ex_folio\<lparr>f_private := Some (ex_iop\<lparr>uptodate := {0}\<rparr>)\<rparr>"
  let ?ino = "ex_inode\<lparr>i_size := 1000\<rparr>"
  have pc: "iomap_page_create ?ino ?f = (Some (ex_iop\<lparr>uptodate := {0}\<rparr>), ?f)"
    by (simp add: iomap_page_create_def Let_def to_iomap_page_def)
  have r: "to_loff_t (size_add (to_size_t 1024) 18446744073709551516) = 924"
    by (simp add: to_loff_t_def size_add_def to_size_t_def)
  have tu: "to_uint 1124 = 1124" "to_uint 18446744073709551516 = 4294967196"
      "uint_add 1124 4294967196 = 1024"
    by (simp_all add: to_uint_def uint_add_def)
  have z: "zero_user ?f 1124 4294967196 = ?f"
    by (simp add: zero_user_def tu ex_folio_def fun_eq_iff)
  have b: "to_uint (shr 1124 10) = 1"
      "to_uint (shr (size_sub (size_add 1124 18446744073709551516) 1) 10) = 0"
      "uint_add (uint_sub 0 1) 1 = 0"
    by (simp_all add: to_uint_def shr_def size_sub_def size_add_def uint_add_def uint_sub_def)
  have b': "to_uint (shr (size_sub (size_add 1124 18446744073709551516) (Suc 0)) 10) = 0"
      "uint_add (uint_sub 0 (Suc 0)) (Suc 0) = 0"
    using b by simp_all
  have "(1::nat) \<in> {..<4}" "(1::nat) \<notin> {0}" by simp_all
  then have nf: "\<not> bitmap_full {0} 4" unfolding bitmap_full_def by blast
  have n: "i_blocks_per_folio ?ino ?f = 4"
    by (simp add: i_blocks_per_folio_def folio_size_eval ex_inode_simps ex_folio_simps shr_def
        to_uint_def)
  have s: "iomap_set_range_uptodate ?ino ?f 1124 18446744073709551516 = ?f"
    unfolding iomap_set_range_uptodate_def iomap_iop_set_range_uptodate_def Let_def
      to_iomap_page_def
    using nf by (simp add: ex_folio_simps ex_inode_simps ex_iop_simps b b' n bitmap_set_def)
  show ?thesis
    by (simp add: iomap_readpage_actor_def Let_def ex_ctx_def pc adjust_example_unaligned
        iomap_block_needs_zeroing_def r tu z s)
qed

end
